theory Spec2Isabelle
  imports Complex_Main "HOL-Library.Sublist"
begin

section \<open>The SQLite store\<close>

text \<open>
  Both pages open the same database file and create the same two tables
  (\<open>initDatabase\<close>): \<open>habits(id, name, streak)\<close> and
  \<open>master(id, habit_id, completed, completed_repeats, date)\<close>. A table is the list of
  its rows in rowid order, which is the order an unsorted \<open>SELECT *\<close> scans them in.
  Both primary keys are \<open>AUTOINCREMENT\<close>: the store remembers the largest key it ever
  handed out (\<open>habits_seq\<close>, \<open>master_seq\<close>) and a new row gets the next one, so a key is
  never used twice. The streak is a JavaScript number that only ever takes integer
  values; it is an \<open>int\<close> here.

  The today page is modelled in the form that logs completions in \<open>master\<close>; the file
  also carries an earlier form of that page, with the flag kept in the habits row, which
  the history page cannot read and which is left out. \<open>printTables\<close> only reads the
  tables for the console and is left out as well.
\<close>

text \<open>
  A JavaScript string is a sequence of UTF-16 code units. The text a user types for a
  name can hold any of them, so a name is the list of its code units, as numbers.
  Dates are produced by the program, in ASCII, and stay \<open>string\<close>s. \<open>ascii\<close> writes an
  ASCII text as its code units.
\<close>

type_synonym js_string = "nat list"

definition ascii :: "string \<Rightarrow> js_string" where
  "ascii s = map of_char s"

record habit_row =
  row_id :: nat
  row_name :: js_string
  row_streak :: int

record master_row =
  m_id :: nat
  habit_id :: nat
  m_completed :: int
  completed_repeats :: int
  date :: string

record database =
  habits_tbl :: "habit_row list"
  master_tbl :: "master_row list"
  habits_seq :: nat
  master_seq :: nat

definition initDatabase :: database where
  "initDatabase = \<lparr>habits_tbl = [], master_tbl = [], habits_seq = 0, master_seq = 0\<rparr>"

subsection \<open>The LIKE operator\<close>

text \<open>
  SQLite's \<open>LIKE\<close>: \<open>%\<close> in the pattern stands for any run of characters, \<open>_\<close> for
  any one character, and every other character matches itself up to the case of ASCII
  letters.
\<close>

definition lower :: "char \<Rightarrow> char" where
  "lower c = (if 65 \<le> (of_char c :: nat) \<and> (of_char c :: nat) \<le> 90
              then char_of (of_char c + (32 :: nat)) else c)"

fun like :: "string \<Rightarrow> string \<Rightarrow> bool" where
  "like [] [] = True"
| "like [] (c # cs) = False"
| "like (p # ps) [] = (p = CHR ''%'' \<and> like ps [])"
| "like (p # ps) (c # cs) =
     (if p = CHR ''%'' then like ps (c # cs) \<or> like (p # ps) cs
      else (p = CHR ''_'' \<or> lower p = lower c) \<and> like ps cs)"

text \<open>\<open>date LIKE $1\<close> with the parameter \<open>`${day}%`\<close>.\<close>

definition on_day :: "string \<Rightarrow> master_row \<Rightarrow> bool" where
  "on_day day m = like (day @ ''%'') (date m)"

subsection \<open>Statements\<close>

text \<open>\<open>SELECT * FROM master WHERE date LIKE $1\<close>\<close>

definition select_master_day :: "database \<Rightarrow> string \<Rightarrow> master_row list" where
  "select_master_day d day = filter (on_day day) (master_tbl d)"

text \<open>\<open>SELECT * FROM master WHERE habit_id = $1 AND date LIKE $2 LIMIT 1\<close>\<close>

definition select_master_habit_day :: "database \<Rightarrow> nat \<Rightarrow> string \<Rightarrow> master_row list" where
  "select_master_habit_day d hid' day =
     take 1 (filter (\<lambda>m. habit_id m = hid' \<and> on_day day m) (master_tbl d))"

text \<open>\<open>UPDATE master SET completed = $1, date = $2 WHERE id = $3\<close>\<close>

definition update_master :: "int \<Rightarrow> string \<Rightarrow> nat \<Rightarrow> database \<Rightarrow> database" where
  "update_master c ts rid d =
     d\<lparr>master_tbl :=
         map (\<lambda>m. if m_id m = rid then m\<lparr>m_completed := c, date := ts\<rparr> else m)
             (master_tbl d)\<rparr>"

text \<open>
  \<open>INSERT INTO master (habit_id, completed, date) VALUES ($1, $2, $3)\<close>; the column
  \<open>completed_repeats\<close> takes its default 0.
\<close>

definition insert_master :: "nat \<Rightarrow> int \<Rightarrow> string \<Rightarrow> database \<Rightarrow> database" where
  "insert_master hid' c ts d =
     d\<lparr>master_tbl := master_tbl d @
           [\<lparr>m_id = Suc (master_seq d), habit_id = hid', m_completed = c,
             completed_repeats = 0, date = ts\<rparr>],
       master_seq := Suc (master_seq d)\<rparr>"

text \<open>\<open>UPDATE habits SET streak = $1 WHERE id = $2\<close>\<close>

definition update_streak :: "int \<Rightarrow> nat \<Rightarrow> database \<Rightarrow> database" where
  "update_streak n hid' d =
     d\<lparr>habits_tbl :=
         map (\<lambda>r. if row_id r = hid' then r\<lparr>row_streak := n\<rparr> else r) (habits_tbl d)\<rparr>"

text \<open>\<open>INSERT INTO habits (name, streak) VALUES ($1, $2)\<close>\<close>

definition insert_habit :: "js_string \<Rightarrow> int \<Rightarrow> database \<Rightarrow> database" where
  "insert_habit nm n d =
     d\<lparr>habits_tbl := habits_tbl d @
           [\<lparr>row_id = Suc (habits_seq d), row_name = nm, row_streak = n\<rparr>],
       habits_seq := Suc (habits_seq d)\<rparr>"

text \<open>\<open>DELETE FROM habits WHERE id = $1\<close> and \<open>DELETE FROM master WHERE habit_id = $1\<close>\<close>

definition delete_habit_row :: "nat \<Rightarrow> database \<Rightarrow> database" where
  "delete_habit_row hid' d = d\<lparr>habits_tbl := filter (\<lambda>r. row_id r \<noteq> hid') (habits_tbl d)\<rparr>"

definition delete_master_rows :: "nat \<Rightarrow> database \<Rightarrow> database" where
  "delete_master_rows hid' d =
     d\<lparr>master_tbl := filter (\<lambda>m. habit_id m \<noteq> hid') (master_tbl d)\<rparr>"

section \<open>The pages\<close>

text \<open>\<open>interface Habit\<close>: a habit row merged with one day's completion flag.\<close>

record Habit =
  hid :: nat
  name :: js_string
  streak :: int
  completed :: bool

text \<open>\<open>currentDate.split("T")[0]\<close>: the text before the first \<open>T\<close>.\<close>

definition split_T :: "string \<Rightarrow> string" where
  "split_T ts = takeWhile (\<lambda>c. c \<noteq> CHR ''T'') ts"

text \<open>
  \<open>getHabitsForDate\<close> of the history page. \<open>masterRows.find\<close> is the first of the day's
  rows with the habit's id; \<open>Boolean\<close> of the stored integer is \<open>\<noteq> 0\<close>.
\<close>

definition getHabitsForDate :: "database \<Rightarrow> string \<Rightarrow> Habit list" where
  "getHabitsForDate d day =
     (let habitRows = habits_tbl d;
          masterRows = select_master_day d day
      in map (\<lambda>row.
            let masterRecord = find (\<lambda>m. habit_id m = row_id row) masterRows
            in \<lparr>hid = row_id row, name = row_name row, streak = row_streak row,
                completed = (case masterRecord of Some m \<Rightarrow> m_completed m \<noteq> 0
                                                | None \<Rightarrow> False)\<rparr>)
          habitRows)"

text \<open>
  \<open>getHabits\<close> of the today page: the same merge, for the day of the clock reading
  \<open>now\<close> (\<open>new Date().toISOString()\<close>).
\<close>

definition getHabits :: "database \<Rightarrow> string \<Rightarrow> Habit list" where
  "getHabits d now =
     (let habitRows = habits_tbl d;
          today = split_T now;
          masterRows = select_master_day d today
      in map (\<lambda>row.
            let masterRecord = find (\<lambda>m. habit_id m = row_id row) masterRows
            in \<lparr>hid = row_id row, name = row_name row, streak = row_streak row,
                completed = (case masterRecord of Some m \<Rightarrow> m_completed m \<noteq> 0
                                                | None \<Rightarrow> False)\<rparr>)
          habitRows)"

text \<open>The flag either merge reports for one habit on one day.\<close>

definition completed_on :: "database \<Rightarrow> nat \<Rightarrow> string \<Rightarrow> bool" where
  "completed_on d hid' day =
     (case find (\<lambda>m. habit_id m = hid') (select_master_day d day) of
        Some m \<Rightarrow> m_completed m \<noteq> 0
      | None \<Rightarrow> False)"

subsection \<open>Dates\<close>

text \<open>
  On the history page \<open>selectedDate\<close> is the value of an \<open>input type="date"\<close>: the empty
  string or a calendar date written \<open>YYYY-MM-DD\<close>. \<open>new Date(selectedDate)\<close> reads the
  date-only form as midnight UTC of that day, and \<open>toISOString\<close> prints it back with the
  time \<open>T00:00:00.000Z\<close>; on an invalid date (the empty string among them)
  \<open>toISOString\<close> throws a \<open>RangeError\<close>.
\<close>

definition digit :: "char \<Rightarrow> bool" where
  "digit c = (c \<in> set ''0123456789'')"

definition digit_val :: "char \<Rightarrow> nat" where
  "digit_val c = of_char c - 48"

definition leap_year :: "nat \<Rightarrow> bool" where
  "leap_year y = (y mod 4 = 0 \<and> (y mod 100 \<noteq> 0 \<or> y mod 400 = 0))"

definition days_in_month :: "nat \<Rightarrow> nat \<Rightarrow> nat" where
  "days_in_month y m =
     (if m = 2 then (if leap_year y then 29 else 28)
      else if m = 4 \<or> m = 6 \<or> m = 9 \<or> m = 11 then 30 else 31)"

fun valid_date :: "string \<Rightarrow> bool" where
  "valid_date [y1, y2, y3, y4, h1, m1, m2, h2, d1, d2] =
     (digit y1 \<and> digit y2 \<and> digit y3 \<and> digit y4 \<and> h1 = CHR ''-'' \<and>
      digit m1 \<and> digit m2 \<and> h2 = CHR ''-'' \<and> digit d1 \<and> digit d2 \<and>
      (let y = 1000 * digit_val y1 + 100 * digit_val y2 + 10 * digit_val y3 + digit_val y4;
           m = 10 * digit_val m1 + digit_val m2;
           dd = 10 * digit_val d1 + digit_val d2
       in 1 \<le> m \<and> m \<le> 12 \<and> 1 \<le> dd \<and> dd \<le> days_in_month y m))"
| "valid_date _ = False"

datatype error = RangeError

definition date_toISOString :: "string \<Rightarrow> error + string" where
  "date_toISOString day =
     (if valid_date day then Inr (day @ ''T00:00:00.000Z'') else Inl RangeError)"

subsection \<open>Page state\<close>

text \<open>
  The module-level variables of the two pages. An \<open>async\<close> handler is a function from
  the page state to the settled promise: \<open>Inr\<close> the state it leaves when it returns,
  \<open>Inl\<close> the error it throws. The store is taken to answer every statement, so the
  \<open>catch\<close> blocks never run.
\<close>

record page =
  db :: database

record today = page +
  habits :: "Habit list"
  newHabitName :: js_string
  isAddingHabit :: bool

record history = page +
  selectedDate :: string
  habitsForDate :: "Habit list"

text \<open>\<open>Array.prototype.findIndex\<close>, with \<open>None\<close> for \<open>-1\<close>.\<close>

fun findIndex :: "('a \<Rightarrow> bool) \<Rightarrow> 'a list \<Rightarrow> nat option" where
  "findIndex P [] = None"
| "findIndex P (x # xs) = (if P x then Some 0 else map_option Suc (findIndex P xs))"

text \<open>
  \<open>String.prototype.trim\<close> removes white space and line terminators from both ends.
  These are the code units U+0009 to U+000D, U+0020, U+00A0, U+1680, U+2000 to U+200A,
  U+2028, U+2029, U+202F, U+205F, U+3000 and U+FEFF.
\<close>

definition is_space :: "nat \<Rightarrow> bool" where
  "is_space c =
     (c \<in> {9, 10, 11, 12, 13, 32, 160, 5760, 8232, 8233, 8239, 8287, 12288, 65279} \<or>
      (8192 \<le> c \<and> c \<le> 8202))"

definition trim :: "js_string \<Rightarrow> js_string" where
  "trim s = rev (dropWhile is_space (rev (dropWhile is_space s)))"

subsection \<open>Toggling\<close>

text \<open>
  The two \<open>toggleHabit\<close> functions share their middle part word for word: look for the
  day's record of the habit, flip it and restamp it if there is one, insert a completed
  one if there is none. The result is \<open>updatedCompleted\<close> and the store after the write.
\<close>

definition toggle_record :: "nat \<Rightarrow> string \<Rightarrow> string \<Rightarrow> database \<Rightarrow> bool \<times> database" where
  "toggle_record id' day currentDate d =
     (case select_master_habit_day d id' day of
        r # _ \<Rightarrow>
          let currentStatus = (m_completed r \<noteq> 0);
              updatedCompleted = \<not> currentStatus
          in (updatedCompleted,
              update_master (if updatedCompleted then 1 else 0) currentDate (m_id r) d)
      | [] \<Rightarrow> (True, insert_master id' 1 currentDate d))"

text \<open>\<open>newStreak\<close>: one more if toggled on, one less but not below 0 if toggled off.\<close>

definition newStreak :: "bool \<Rightarrow> int \<Rightarrow> int" where
  "newStreak updatedCompleted n = (if updatedCompleted then n + 1 else max (n - 1) 0)"

text \<open>\<open>toggleHabit\<close> of the today page; \<open>now\<close> is \<open>new Date().toISOString()\<close>.\<close>

definition toggleHabit :: "nat \<Rightarrow> string \<Rightarrow> today \<Rightarrow> error + today" where
  "toggleHabit id' now s =
     (case findIndex (\<lambda>h. hid h = id') (habits s) of
        None \<Rightarrow> Inr s
      | Some habitIndex \<Rightarrow>
          let currentDate = now;
              today = split_T currentDate;
              (updatedCompleted, d1) = toggle_record id' today currentDate (db s);
              n = newStreak updatedCompleted (streak (habits s ! habitIndex));
              d2 = update_streak n id' d1
          in Inr (s\<lparr>db := d2,
                    habits := (habits s)[habitIndex :=
                      (habits s ! habitIndex)\<lparr>completed := updatedCompleted, streak := n\<rparr>]\<rparr>))"

text \<open>
  \<open>toggleHabit\<close> of the history page. The timestamp written is that of the selected
  day, not the clock's.
\<close>

definition toggleHabit_history :: "nat \<Rightarrow> history \<Rightarrow> error + history" where
  "toggleHabit_history id' s =
     (case findIndex (\<lambda>h. hid h = id') (habitsForDate s) of
        None \<Rightarrow> Inr s
      | Some habitIndex \<Rightarrow>
          (case date_toISOString (selectedDate s) of
             Inl e \<Rightarrow> Inl e
           | Inr currentDate \<Rightarrow>
               let datePrefix = selectedDate s;
                   (updatedCompleted, d1) = toggle_record id' datePrefix currentDate (db s);
                   n = newStreak updatedCompleted (streak (habitsForDate s ! habitIndex));
                   d2 = update_streak n id' d1
               in Inr (s\<lparr>db := d2,
                         habitsForDate := (habitsForDate s)[habitIndex :=
                           (habitsForDate s ! habitIndex)
                             \<lparr>completed := updatedCompleted, streak := n\<rparr>]\<rparr>)))"

subsection \<open>Adding, deleting, loading\<close>

text \<open>\<open>addHabit\<close>: an empty trimmed name returns at once; \<open>now\<close> is read by \<open>getHabits\<close>.\<close>

definition addHabit :: "string \<Rightarrow> today \<Rightarrow> error + today" where
  "addHabit now s =
     (if trim (newHabitName s) = [] then Inr s
      else let d1 = insert_habit (trim (newHabitName s)) 0 (db s)
           in Inr (s\<lparr>db := d1, habits := getHabits d1 now,
                     newHabitName := [], isAddingHabit := False\<rparr>))"

text \<open>\<open>deleteHabit\<close>; \<open>confirmed\<close> is the answer to the \<open>confirm\<close> dialog.\<close>

definition deleteHabit :: "nat \<Rightarrow> bool \<Rightarrow> today \<Rightarrow> error + today" where
  "deleteHabit id' confirmed s =
     (if confirmed
      then let d1 = delete_habit_row id' (db s);
               d2 = delete_master_rows id' d1
           in Inr (s\<lparr>db := d2, habits := filter (\<lambda>h. hid h \<noteq> id') (habits s)\<rparr>)
      else Inr s)"

definition fetchHabits :: "history \<Rightarrow> history" where
  "fetchHabits s = s\<lparr>habitsForDate := getHabitsForDate (db s) (selectedDate s)\<rparr>"

definition handleDateChange :: "string \<Rightarrow> history \<Rightarrow> history" where
  "handleDateChange v s = fetchHabits (s\<lparr>selectedDate := v\<rparr>)"

text \<open>\<open>onMount\<close> of either page, on the store as it is when the page is opened.\<close>

definition mount_today :: "string \<Rightarrow> database \<Rightarrow> today" where
  "mount_today now d =
     \<lparr>db = d, habits = getHabits d now, newHabitName = [], isAddingHabit = False\<rparr>"

definition mount_history :: "string \<Rightarrow> database \<Rightarrow> history" where
  "mount_history now d =
     fetchHabits \<lparr>db = d, selectedDate = split_T now, habitsForDate = []\<rparr>"

subsection \<open>Progress\<close>

text \<open>
  \<open>completedCount\<close> and \<open>progressPercent\<close>, the same on both pages. JavaScript numbers
  are doubles: an arithmetic operation yields the exact result rounded, which is the
  parameter \<open>fl\<close> here, and a division by zero yields \<open>NaN\<close> or an infinity, which is
  \<open>None\<close>.
\<close>

definition completedCount :: "Habit list \<Rightarrow> nat" where
  "completedCount hs = length (filter completed hs)"

definition js_div :: "(real \<Rightarrow> real) \<Rightarrow> real \<Rightarrow> real \<Rightarrow> real option" where
  "js_div fl a b = (if b = 0 then None else Some (fl (a / b)))"

definition js_mul :: "(real \<Rightarrow> real) \<Rightarrow> real option \<Rightarrow> real \<Rightarrow> real option" where
  "js_mul fl a b = map_option (\<lambda>x. fl (x * b)) a"

definition progressPercent :: "(real \<Rightarrow> real) \<Rightarrow> Habit list \<Rightarrow> real option" where
  "progressPercent fl hs =
     (if length hs \<noteq> 0
      then js_mul fl (js_div fl (real (completedCount hs)) (real (length hs))) 100
      else Some 0)"

text \<open>What the theorems need of the rounding: it is monotone and exact on 0, 1 and 100.\<close>

definition rounding :: "(real \<Rightarrow> real) \<Rightarrow> bool" where
  "rounding fl = (mono fl \<and> fl 0 = 0 \<and> fl 1 = 1 \<and> fl 100 = 100)"

section \<open>The application\<close>

text \<open>
  One page is mounted at a time, over the one store. An event is a user action together
  with what it reads from outside: the clock, the text typed, the answer to the dialog.
  A handler that throws leaves the page as it was. An action the mounted page does not
  offer changes nothing.
\<close>

datatype app = TodayPage today | HistoryPage history

datatype event =
    Open_today string
  | Open_history string
  | Edit_name js_string
  | Start_adding
  | Cancel_adding
  | Add string
  | Toggle nat string
  | Delete nat bool
  | Change_date string

fun the_db :: "app \<Rightarrow> database" where
  "the_db (TodayPage s) = db s"
| "the_db (HistoryPage s) = db s"

fun view :: "app \<Rightarrow> Habit list" where
  "view (TodayPage s) = habits s"
| "view (HistoryPage s) = habitsForDate s"

definition settle :: "'a \<Rightarrow> error + 'a \<Rightarrow> 'a" where
  "settle s r = (case r of Inl e \<Rightarrow> s | Inr s' \<Rightarrow> s')"

fun step :: "app \<Rightarrow> event \<Rightarrow> app" where
  "step a (Open_today now) = TodayPage (mount_today now (the_db a))"
| "step a (Open_history now) = HistoryPage (mount_history now (the_db a))"
| "step (TodayPage s) (Edit_name v) = TodayPage (s\<lparr>newHabitName := v\<rparr>)"
| "step (TodayPage s) Start_adding = TodayPage (s\<lparr>isAddingHabit := True\<rparr>)"
| "step (TodayPage s) Cancel_adding =
     TodayPage (s\<lparr>isAddingHabit := False, newHabitName := []\<rparr>)"
| "step (TodayPage s) (Add now) = TodayPage (settle s (addHabit now s))"
| "step (TodayPage s) (Toggle i now) = TodayPage (settle s (toggleHabit i now s))"
| "step (TodayPage s) (Delete i c) = TodayPage (settle s (deleteHabit i c s))"
| "step (HistoryPage s) (Toggle i now) = HistoryPage (settle s (toggleHabit_history i s))"
| "step (HistoryPage s) (Change_date v) = HistoryPage (handleDateChange v s)"
| "step a _ = a"

definition run :: "app \<Rightarrow> event list \<Rightarrow> app" where
  "run a evs = foldl step a evs"

text \<open>The first start: the tables are created empty and the today page is mounted.\<close>

definition launch :: "string \<Rightarrow> app" where
  "launch now = TodayPage (mount_today now initDatabase)"

text \<open>The day a toggle addresses and the timestamp it writes, on the mounted page.\<close>

fun toggle_day :: "app \<Rightarrow> string \<Rightarrow> string" where
  "toggle_day (TodayPage s) now = split_T now"
| "toggle_day (HistoryPage s) now = selectedDate s"

fun toggle_stamp :: "app \<Rightarrow> string \<Rightarrow> string" where
  "toggle_stamp (TodayPage s) now = now"
| "toggle_stamp (HistoryPage s) now = selectedDate s @ ''T00:00:00.000Z''"

subsection \<open>A statement that fails\<close>

text \<open>
  \<open>toggleHabit\<close> awaits three statements one after the other, outside any transaction
  and any \<open>try\<close>: the lookup, the write of the record, the write of the streak. When one
  of them rejects, the handler stops there; what it leaves behind is the store with the
  earlier writes and the page untouched, since the page is assigned last.
\<close>

datatype statement = Lookup | Write_record | Write_streak

definition toggleHabit_rejected :: "statement \<Rightarrow> nat \<Rightarrow> string \<Rightarrow> today \<Rightarrow> today" where
  "toggleHabit_rejected st id' now s =
     (case findIndex (\<lambda>h. hid h = id') (habits s) of
        None \<Rightarrow> s
      | Some habitIndex \<Rightarrow>
          (case st of
             Lookup \<Rightarrow> s
           | Write_record \<Rightarrow> s
           | Write_streak \<Rightarrow>
               let currentDate = now;
                   today = split_T currentDate;
                   (updatedCompleted, d1) = toggle_record id' today currentDate (db s)
               in s\<lparr>db := d1\<rparr>))"

definition toggleHabit_history_rejected :: "statement \<Rightarrow> nat \<Rightarrow> history \<Rightarrow> history" where
  "toggleHabit_history_rejected st id' s =
     (case findIndex (\<lambda>h. hid h = id') (habitsForDate s) of
        None \<Rightarrow> s
      | Some habitIndex \<Rightarrow>
          (case date_toISOString (selectedDate s) of
             Inl e \<Rightarrow> s
           | Inr currentDate \<Rightarrow>
               (case st of
                  Lookup \<Rightarrow> s
                | Write_record \<Rightarrow> s
                | Write_streak \<Rightarrow>
                    let datePrefix = selectedDate s;
                        (updatedCompleted, d1) =
                          toggle_record id' datePrefix currentDate (db s)
                    in s\<lparr>db := d1\<rparr>)))"

section \<open>Invariants\<close>

text \<open>
  What the primary keys and the handlers keep true of the store: keys are distinct and
  not above the sequence, and every record belongs to a habit that is there.
\<close>

definition wf_db :: "database \<Rightarrow> bool" where
  "wf_db d =
     (distinct (map row_id (habits_tbl d)) \<and>
      distinct (map m_id (master_tbl d)) \<and>
      (\<forall>r \<in> set (habits_tbl d). row_id r \<le> habits_seq d) \<and>
      (\<forall>m \<in> set (master_tbl d).
          m_id m \<le> master_seq d \<and> habit_id m \<in> row_id ` set (habits_tbl d)))"

text \<open>The list on the page shows the rows of the table, apart from the day's flags.\<close>

definition in_sync :: "database \<Rightarrow> Habit list \<Rightarrow> bool" where
  "in_sync d hs =
     (map (\<lambda>h. (hid h, name h, streak h)) hs =
      map (\<lambda>r. (row_id r, row_name r, row_streak r)) (habits_tbl d))"

definition streaks_nonneg :: "app \<Rightarrow> bool" where
  "streaks_nonneg a =
     ((\<forall>r \<in> set (habits_tbl (the_db a)). 0 \<le> row_streak r) \<and>
      (\<forall>h \<in> set (view a). 0 \<le> streak h))"

definition app_ok :: "app \<Rightarrow> bool" where
  "app_ok a = (wf_db (the_db a) \<and> in_sync (the_db a) (view a) \<and> streaks_nonneg a)"

text \<open>The characters of a date: digits and the hyphen, none of them special to \<open>LIKE\<close>.\<close>

definition plain :: "char \<Rightarrow> bool" where
  "plain c = (c \<in> set ''0123456789-'')"

section \<open>Matching a day is matching a prefix\<close>

lemma lower_plain: "plain p \<Longrightarrow> (lower p = lower c) = (p = c)"
proof -
  assume p: "plain p"
  have np: "lower p = p" using p by (auto simp: plain_def lower_def)
  have rng: "(of_char p :: nat) \<in> {45, 48, 49, 50, 51, 52, 53, 54, 55, 56, 57}"
    using p by (auto simp: plain_def)
  show ?thesis
  proof (cases "65 \<le> (of_char c :: nat) \<and> (of_char c :: nat) \<le> 90")
    case True
    then have "(of_char (lower c) :: nat) = of_char c + 32"
      by (simp add: lower_def)
    then have "lower c \<noteq> p" using rng True by auto
    moreover have "c \<noteq> p" using rng True by auto
    ultimately show ?thesis by (simp add: np)
  next
    case False
    then have "lower c = c" unfolding lower_def by (simp only: if_False)
    then show ?thesis by (simp add: np)
  qed
qed

lemma like_percent: "like ''%'' s"
  by (induction s) auto

lemma like_prefix: "list_all plain p \<Longrightarrow> like (p @ ''%'') s = prefix p s"
proof (induction p arbitrary: s)
  case Nil
  then show ?case by (simp add: like_percent)
next
  case (Cons a p)
  then have a: "plain a" and IH: "\<And>s. like (p @ ''%'') s = prefix p s" by auto
  have n: "a \<noteq> CHR ''%''" "a \<noteq> CHR ''_''" using a by (auto simp: plain_def)
  show ?case
  proof (cases s)
    case Nil
    then show ?thesis using n by simp
  next
    case (Cons c cs)
    then show ?thesis using n IH lower_plain[OF a, of c] by auto
  qed
qed

lemma digit_plain: "digit c \<Longrightarrow> plain c"
  by (auto simp: digit_def plain_def)

lemma valid_date_plain: "valid_date d \<Longrightarrow> list_all plain d \<and> length d = 10"
proof (induction d rule: valid_date.induct)
  case (1 y1 y2 y3 y4 h1 m1 m2 h2 d1 d2)
  then have "digit y1" "digit y2" "digit y3" "digit y4" "h1 = CHR ''-''"
     "digit m1" "digit m2" "h2 = CHR ''-''" "digit d1" "digit d2"
    by simp_all
  then show ?case by (simp add: digit_plain) (simp add: plain_def)
qed simp_all

lemma on_day_prefix: "valid_date day \<Longrightarrow> on_day day m = prefix day (date m)"
  by (simp add: on_day_def like_prefix valid_date_plain)

lemma valid_date_example: "valid_date ''2025-04-14''"
  by (simp add: digit_def digit_val_def days_in_month_def leap_year_def)

section \<open>Listing the habits of a day\<close>

lemma getHabits_eq: "getHabits d now = getHabitsForDate d (split_T now)"
  by (simp add: getHabits_def getHabitsForDate_def)

lemma getHabitsForDate_none:
  assumes "\<forall>m \<in> set (master_tbl d). \<not> on_day day m"
  shows "getHabitsForDate d day =
         map (\<lambda>r. \<lparr>hid = row_id r, name = row_name r, streak = row_streak r,
                    completed = False\<rparr>) (habits_tbl d)"
proof -
  have "select_master_day d day = []"
    using assms by (simp add: select_master_day_def filter_empty_conv)
  then show ?thesis by (simp add: getHabitsForDate_def)
qed

text \<open>
  C7. When no record of the store falls on the day asked for, the list of either page is
  the habits table row by row, in the order of the table, every habit not completed.
  For a date \<open>YYYY-MM-DD\<close> a record falls on the day when its date text starts with it.
\<close>

theorem list_for_day_without_records:
  assumes "\<forall>m \<in> set (master_tbl d). \<not> on_day day m"
  shows "getHabitsForDate d day =
           map (\<lambda>r. \<lparr>hid = row_id r, name = row_name r, streak = row_streak r,
                      completed = False\<rparr>) (habits_tbl d)
         \<and> (split_T now = day \<longrightarrow> getHabits d now = getHabitsForDate d day)
         \<and> (valid_date day \<longrightarrow> (\<forall>m. on_day day m = prefix day (date m)))"
  using getHabitsForDate_none[OF assms] by (simp add: getHabits_eq on_day_prefix)

theorem list_for_day_without_records_witness:
  "getHabitsForDate
     \<lparr>habits_tbl = [\<lparr>row_id = 1, row_name = ascii ''Drink water'', row_streak = 2\<rparr>,
                     \<lparr>row_id = 2, row_name = ascii ''Read'', row_streak = 0\<rparr>],
      master_tbl = [\<lparr>m_id = 1, habit_id = 1, m_completed = 1, completed_repeats = 0,
                      date = ''2025-04-13T08:00:00.000Z''\<rparr>],
      habits_seq = 2, master_seq = 1\<rparr> ''2025-04-14'' =
   [\<lparr>hid = 1, name = ascii ''Drink water'', streak = 2, completed = False\<rparr>,
    \<lparr>hid = 2, name = ascii ''Read'', streak = 0, completed = False\<rparr>]"
proof -
  let ?d = "\<lparr>habits_tbl = [\<lparr>row_id = 1, row_name = ascii ''Drink water'', row_streak = 2\<rparr>,
                     \<lparr>row_id = 2, row_name = ascii ''Read'', row_streak = 0\<rparr>],
      master_tbl = [\<lparr>m_id = 1, habit_id = 1, m_completed = 1, completed_repeats = 0,
                      date = ''2025-04-13T08:00:00.000Z''\<rparr>],
      habits_seq = 2, master_seq = 1\<rparr>"
  have h: "\<forall>m \<in> set (master_tbl ?d). \<not> on_day ''2025-04-14'' m"
    by (simp add: on_day_def lower_def)
  show ?thesis
    using list_for_day_without_records[OF h, of "''2025-04-14T09:00:00.000Z''"] by simp
qed

section \<open>Progress\<close>

text \<open>
  C10. The progress percentage is a finite number on every list: 0 on the empty list,
  where no division takes place, and the rounded \<open>completedCount / length * 100\<close>
  otherwise; it lies between 0 and 100.
\<close>

theorem progressPercent_total:
  assumes "rounding fl"
  shows "\<exists>p. progressPercent fl hs = Some p \<and> 0 \<le> p \<and> p \<le> 100 \<and>
          (hs = [] \<longrightarrow> p = 0) \<and>
          (hs \<noteq> [] \<longrightarrow>
             p = fl (fl (real (completedCount hs) / real (length hs)) * 100))"
proof (cases "hs = []")
  case True
  then show ?thesis by (simp add: progressPercent_def)
next
  case False
  let ?c = "real (completedCount hs)" and ?n = "real (length hs)"
  from assms have m: "mono fl" and f0: "fl 0 = 0" and f1: "fl 1 = 1" and f100: "fl 100 = 100"
    by (simp_all add: rounding_def)
  have n: "0 < ?n" using False by simp
  have cn: "?c \<le> ?n" by (simp add: completedCount_def)
  have q0: "0 \<le> ?c / ?n" by simp
  have q1: "?c / ?n \<le> 1" using n cn by simp
  have r0: "0 \<le> fl (?c / ?n)" using monoD[OF m q0] f0 by simp
  have r1: "fl (?c / ?n) \<le> 1" using monoD[OF m q1] f1 by simp
  have "0 \<le> fl (?c / ?n) * 100" using r0 by simp
  then have p0: "0 \<le> fl (fl (?c / ?n) * 100)"
    using monoD[OF m, of 0 "fl (?c / ?n) * 100"] f0 by simp
  have "fl (?c / ?n) * 100 \<le> 100" using r1 by simp
  then have p1: "fl (fl (?c / ?n) * 100) \<le> 100"
    using monoD[OF m, of "fl (?c / ?n) * 100" 100] f100 by simp
  have "progressPercent fl hs = Some (fl (fl (?c / ?n) * 100))"
    using False by (simp add: progressPercent_def js_mul_def js_div_def)
  then show ?thesis using p0 p1 False by simp
qed

theorem progressPercent_total_witness:
  "rounding (\<lambda>x. x) \<and>
   progressPercent (\<lambda>x. x)
     [\<lparr>hid = 1, name = ascii ''a'', streak = 0, completed = True\<rparr>,
      \<lparr>hid = 2, name = ascii ''b'', streak = 0, completed = False\<rparr>] = Some 50"
proof -
  have r: "rounding (\<lambda>x::real. x)" by (simp add: rounding_def mono_def)
  show ?thesis
    using r progressPercent_total[OF r,
      of "[\<lparr>hid = 1, name = ascii ''a'', streak = 0, completed = True\<rparr>,
           \<lparr>hid = 2, name = ascii ''b'', streak = 0, completed = False\<rparr>]"]
    by (auto simp: completedCount_def)
qed

section \<open>Lists and statements\<close>

lemma findIndex_None: "(findIndex P xs = None) = (\<forall>x \<in> set xs. \<not> P x)"
  by (induction xs) auto

lemma findIndex_Some:
  "findIndex P xs = Some k \<Longrightarrow> k < length xs \<and> P (xs ! k) \<and> (\<forall>j < k. \<not> P (xs ! j))"
proof (induction xs arbitrary: k)
  case Nil
  then show ?case by simp
next
  case (Cons x xs)
  show ?case
  proof (cases "P x")
    case True
    with Cons.prems show ?thesis by simp
  next
    case False
    with Cons.prems obtain k' where k': "findIndex P xs = Some k'" "k = Suc k'"
      by auto
    from Cons.IH[OF k'(1)] False k'(2) show ?thesis
      by (auto simp: nth_Cons split: nat.splits)
  qed
qed

lemma findIndex_exists: "x \<in> set xs \<Longrightarrow> P x \<Longrightarrow> \<exists>k. findIndex P xs = Some k"
  using findIndex_None[of P xs] by (cases "findIndex P xs") auto

lemma find_filter: "find P (filter R xs) = find (\<lambda>x. R x \<and> P x) xs"
  by (induction xs) auto

lemma take1_filter:
  "take 1 (filter P xs) = (case find P xs of None \<Rightarrow> [] | Some x \<Rightarrow> [x])"
  by (induction xs) auto

lemma find_map_preserve:
  "(\<forall>x \<in> set xs. Q (f x) = Q x) \<Longrightarrow> find Q (map f xs) = map_option f (find Q xs)"
  by (induction xs) auto

lemma find_append_new:
  "find Q (xs @ [n]) =
     (case find Q xs of Some x \<Rightarrow> Some x | None \<Rightarrow> if Q n then Some n else None)"
  by (induction xs) auto

lemma find_mem: "find P xs = Some x \<Longrightarrow> x \<in> set xs \<and> P x"
  by (induction xs) (auto split: if_splits)

lemma map_key_update:
  assumes "distinct (map key xs)" "k < length xs"
  shows "map (\<lambda>x. if key x = key (xs ! k) then g x else x) xs = xs[k := g (xs ! k)]"
proof (rule nth_equalityI)
  show "length (map (\<lambda>x. if key x = key (xs ! k) then g x else x) xs) = length (xs[k := g (xs ! k)])"
    by simp
next
  fix j assume "j < length (map (\<lambda>x. if key x = key (xs ! k) then g x else x) xs)"
  then have j: "j < length xs" by simp
  have "(key (xs ! j) = key (xs ! k)) = (j = k)"
    using assms j nth_eq_iff_index_eq[of "map key xs" j k] by simp
  then show "map (\<lambda>x. if key x = key (xs ! k) then g x else x) xs ! j = xs[k := g (xs ! k)] ! j"
    using j by (simp add: nth_list_update)
qed

lemma key_unique:
  "distinct (map key xs) \<Longrightarrow> x \<in> set xs \<Longrightarrow> y \<in> set xs \<Longrightarrow> key x = key y \<Longrightarrow> x = y"
  by (meson distinct_map inj_onD)

lemma completed_on_find:
  "completed_on d i day =
     (case find (\<lambda>m. on_day day m \<and> habit_id m = i) (master_tbl d) of
        Some m \<Rightarrow> m_completed m \<noteq> 0 | None \<Rightarrow> False)"
  by (simp add: completed_on_def select_master_day_def find_filter)

lemma select_limit1:
  "select_master_habit_day d i day =
     (case find (\<lambda>m. habit_id m = i \<and> on_day day m) (master_tbl d) of
        None \<Rightarrow> [] | Some r \<Rightarrow> [r])"
  by (simp only: select_master_habit_day_def take1_filter)

lemma toggle_record_found:
  "find (\<lambda>m. habit_id m = i \<and> on_day day m) (master_tbl d) = Some r \<Longrightarrow>
   toggle_record i day ts d =
     (m_completed r = 0, update_master (if m_completed r = 0 then 1 else 0) ts (m_id r) d)"
  by (simp add: toggle_record_def select_limit1 Let_def)

lemma toggle_record_missing:
  "find (\<lambda>m. habit_id m = i \<and> on_day day m) (master_tbl d) = None \<Longrightarrow>
   toggle_record i day ts d = (True, insert_master i 1 ts d)"
  by (simp add: toggle_record_def select_limit1)

lemma toggle_record_habits:
  "habits_tbl (snd (toggle_record i day ts d)) = habits_tbl d \<and>
   habits_seq (snd (toggle_record i day ts d)) = habits_seq d"
  by (cases "find (\<lambda>m. habit_id m = i \<and> on_day day m) (master_tbl d)")
     (simp_all add: toggle_record_found toggle_record_missing update_master_def insert_master_def)

lemma wf_db_alt:
  "wf_db d =
     (distinct (map row_id (habits_tbl d)) \<and> distinct (map m_id (master_tbl d)) \<and>
      (\<forall>x \<in> set (map row_id (habits_tbl d)). x \<le> habits_seq d) \<and>
      (\<forall>x \<in> set (map m_id (master_tbl d)). x \<le> master_seq d) \<and>
      set (map habit_id (master_tbl d)) \<subseteq> set (map row_id (habits_tbl d)))"
  by (auto simp: wf_db_def)

lemma update_master_cols:
  "map m_id (master_tbl (update_master c ts rid d)) = map m_id (master_tbl d)"
  "map habit_id (master_tbl (update_master c ts rid d)) = map habit_id (master_tbl d)"
  "habits_tbl (update_master c ts rid d) = habits_tbl d"
  "habits_seq (update_master c ts rid d) = habits_seq d"
  "master_seq (update_master c ts rid d) = master_seq d"
  by (simp_all add: update_master_def comp_def if_distrib cong: if_cong)

lemma update_streak_cols:
  "map row_id (habits_tbl (update_streak n i d)) = map row_id (habits_tbl d)"
  "master_tbl (update_streak n i d) = master_tbl d"
  "habits_seq (update_streak n i d) = habits_seq d"
  "master_seq (update_streak n i d) = master_seq d"
  by (simp_all add: update_streak_def comp_def if_distrib cong: if_cong)

lemma wf_update_master: "wf_db d \<Longrightarrow> wf_db (update_master c ts rid d)"
  by (simp add: wf_db_alt update_master_cols)

lemma wf_update_streak: "wf_db d \<Longrightarrow> wf_db (update_streak n i d)"
  by (simp add: wf_db_alt update_streak_cols)

lemma wf_insert_master:
  "wf_db d \<Longrightarrow> i \<in> row_id ` set (habits_tbl d) \<Longrightarrow> wf_db (insert_master i c ts d)"
  by (fastforce simp: wf_db_alt insert_master_def)

lemma wf_toggle_record:
  "wf_db d \<Longrightarrow> i \<in> row_id ` set (habits_tbl d) \<Longrightarrow> wf_db (snd (toggle_record i day ts d))"
  by (cases "find (\<lambda>m. habit_id m = i \<and> on_day day m) (master_tbl d)")
     (simp_all add: toggle_record_found toggle_record_missing wf_update_master wf_insert_master)

lemma wf_insert_habit: "wf_db d \<Longrightarrow> wf_db (insert_habit nm n d)"
  by (fastforce simp: wf_db_alt insert_habit_def)

lemma wf_delete: "wf_db d \<Longrightarrow> wf_db (delete_master_rows i (delete_habit_row i d))"
  by (auto simp: wf_db_def delete_master_rows_def delete_habit_row_def distinct_map_filter)

lemma wf_init: "wf_db initDatabase"
  by (simp add: wf_db_def initDatabase_def)

section \<open>One toggle\<close>

lemma split_T_prefix: "prefix (split_T now) now"
  unfolding split_T_def by (metis prefixI takeWhile_dropWhile_id)

lemma date_toISOString_valid:
  "valid_date day \<Longrightarrow> date_toISOString day = Inr (day @ ''T00:00:00.000Z'')"
  by (simp add: date_toISOString_def)

lemma toggle_stamp_prefix: "prefix (toggle_day a now) (toggle_stamp a now)"
  by (cases a) (simp_all add: split_T_prefix)

lemma toggle_step:
  assumes k: "findIndex (\<lambda>h. hid h = i) (view a) = Some k"
    and v: "valid_date (toggle_day a now)"
  shows "the_db (step a (Toggle i now)) =
           update_streak
             (newStreak (fst (toggle_record i (toggle_day a now) (toggle_stamp a now) (the_db a)))
                        (streak (view a ! k))) i
             (snd (toggle_record i (toggle_day a now) (toggle_stamp a now) (the_db a)))"
    and "view (step a (Toggle i now)) =
           (view a)[k := (view a ! k)
              \<lparr>completed := fst (toggle_record i (toggle_day a now) (toggle_stamp a now) (the_db a)),
               streak := newStreak
                 (fst (toggle_record i (toggle_day a now) (toggle_stamp a now) (the_db a)))
                 (streak (view a ! k))\<rparr>]"
    and "toggle_day (step a (Toggle i now)) now' = toggle_day a now'"
    and "toggle_stamp (step a (Toggle i now)) now' = toggle_stamp a now'"
proof -
  show "the_db (step a (Toggle i now)) =
           update_streak
             (newStreak (fst (toggle_record i (toggle_day a now) (toggle_stamp a now) (the_db a)))
                        (streak (view a ! k))) i
             (snd (toggle_record i (toggle_day a now) (toggle_stamp a now) (the_db a)))"
    using k v
    by (cases a)
       (simp_all add: toggleHabit_def toggleHabit_history_def settle_def Let_def
          date_toISOString_valid split_beta)
  show "view (step a (Toggle i now)) =
           (view a)[k := (view a ! k)
              \<lparr>completed := fst (toggle_record i (toggle_day a now) (toggle_stamp a now) (the_db a)),
               streak := newStreak
                 (fst (toggle_record i (toggle_day a now) (toggle_stamp a now) (the_db a)))
                 (streak (view a ! k))\<rparr>]"
    using k v
    by (cases a)
       (simp_all add: toggleHabit_def toggleHabit_history_def settle_def Let_def
          date_toISOString_valid split_beta)
  show "toggle_day (step a (Toggle i now)) now' = toggle_day a now'"
    using k v
    by (cases a)
       (simp_all add: toggleHabit_def toggleHabit_history_def settle_def Let_def
          date_toISOString_valid split_beta)
  show "toggle_stamp (step a (Toggle i now)) now' = toggle_stamp a now'"
    using k v
    by (cases a)
       (simp_all add: toggleHabit_def toggleHabit_history_def settle_def Let_def
          date_toISOString_valid split_beta)
qed

lemma toggle_step_missing:
  "findIndex (\<lambda>h. hid h = i) (view a) = None \<Longrightarrow> step a (Toggle i now) = a"
  by (cases a) (simp_all add: toggleHabit_def toggleHabit_history_def settle_def)

section \<open>The streak is never negative\<close>

lemma newStreak_nonneg: "0 \<le> n \<Longrightarrow> 0 \<le> newStreak c n"
  by (simp add: newStreak_def)

lemma toggle_rows_nonneg:
  assumes "\<forall>r \<in> set (habits_tbl d). 0 \<le> row_streak r" "0 \<le> n"
  shows "\<forall>r \<in> set (habits_tbl (update_streak n i (snd (toggle_record i day ts d)))).
           0 \<le> row_streak r"
  using assms by (auto simp: update_streak_def toggle_record_habits)

lemma toggle_view_nonneg:
  assumes "\<forall>h \<in> set hs. 0 \<le> streak h" "0 \<le> n"
  shows "\<forall>h \<in> set (hs[k := (hs ! k)\<lparr>completed := c, streak := n\<rparr>]). 0 \<le> streak h"
proof
  fix h assume "h \<in> set (hs[k := (hs ! k)\<lparr>completed := c, streak := n\<rparr>])"
  then have "h = (hs ! k)\<lparr>completed := c, streak := n\<rparr> \<or> h \<in> set hs"
    using set_update_subset_insert[of hs k] by auto
  then show "0 \<le> streak h" using assms by auto
qed

lemma getHabitsForDate_streaks:
  "map streak (getHabitsForDate d day) = map row_streak (habits_tbl d)"
  "map hid (getHabitsForDate d day) = map row_id (habits_tbl d)"
  "map name (getHabitsForDate d day) = map row_name (habits_tbl d)"
  by (simp_all add: getHabitsForDate_def Let_def comp_def)

lemma getHabitsForDate_nonneg:
  assumes "\<forall>r \<in> set (habits_tbl d). 0 \<le> row_streak r"
  shows "\<forall>h \<in> set (getHabitsForDate d day). 0 \<le> streak h"
proof -
  show ?thesis using assms by (simp add: getHabitsForDate_def Let_def)
qed

lemma toggleHabit_nonneg:
  assumes "streaks_nonneg (TodayPage s)"
  shows "streaks_nonneg (TodayPage (settle s (toggleHabit i now s)))"
proof (cases "findIndex (\<lambda>h. hid h = i) (habits s)")
  case None
  then show ?thesis using assms by (simp add: toggleHabit_def settle_def)
next
  case (Some k)
  then have "k < length (habits s)" by (simp add: findIndex_Some)
  then have n: "0 \<le> streak (habits s ! k)" using assms by (simp add: streaks_nonneg_def)
  show ?thesis
    using Some assms
      toggle_rows_nonneg[of "db s" "newStreak (fst (toggle_record i (split_T now) now (db s))) (streak (habits s ! k))" i "split_T now" now]
      toggle_view_nonneg[of "habits s" "newStreak (fst (toggle_record i (split_T now) now (db s))) (streak (habits s ! k))" k "fst (toggle_record i (split_T now) now (db s))"]
      newStreak_nonneg[OF n]
    by (simp add: toggleHabit_def settle_def Let_def split_beta streaks_nonneg_def)
qed

lemma toggleHabit_history_nonneg:
  assumes "streaks_nonneg (HistoryPage s)"
  shows "streaks_nonneg (HistoryPage (settle s (toggleHabit_history i s)))"
proof (cases "findIndex (\<lambda>h. hid h = i) (habitsForDate s)")
  case None
  then show ?thesis using assms by (simp add: toggleHabit_history_def settle_def)
next
  case (Some k)
  then have "k < length (habitsForDate s)" by (simp add: findIndex_Some)
  then have n: "0 \<le> streak (habitsForDate s ! k)" using assms by (simp add: streaks_nonneg_def)
  show ?thesis
  proof (cases "date_toISOString (selectedDate s)")
    case (Inl e)
    then show ?thesis using Some assms by (simp add: toggleHabit_history_def settle_def)
  next
    case (Inr ts)
    show ?thesis
      using Some Inr assms
        toggle_rows_nonneg[of "db s" "newStreak (fst (toggle_record i (selectedDate s) ts (db s))) (streak (habitsForDate s ! k))" i "selectedDate s" ts]
        toggle_view_nonneg[of "habitsForDate s" "newStreak (fst (toggle_record i (selectedDate s) ts (db s))) (streak (habitsForDate s ! k))" k "fst (toggle_record i (selectedDate s) ts (db s))"]
        newStreak_nonneg[OF n]
      by (simp add: toggleHabit_history_def settle_def Let_def split_beta streaks_nonneg_def)
  qed
qed

lemma addHabit_nonneg:
  assumes "streaks_nonneg (TodayPage s)"
  shows "streaks_nonneg (TodayPage (settle s (addHabit now s)))"
proof (cases "trim (newHabitName s) = []")
  case True
  then show ?thesis using assms by (simp add: addHabit_def settle_def)
next
  case False
  have r: "\<forall>r \<in> set (habits_tbl (insert_habit (trim (newHabitName s)) 0 (db s))). 0 \<le> row_streak r"
    using assms by (auto simp: streaks_nonneg_def insert_habit_def)
  show ?thesis
    using False r getHabitsForDate_nonneg[OF r, of "split_T now"]
    by (simp add: addHabit_def settle_def Let_def streaks_nonneg_def getHabits_eq)
qed

lemma deleteHabit_nonneg:
  assumes "streaks_nonneg (TodayPage s)"
  shows "streaks_nonneg (TodayPage (settle s (deleteHabit i c s)))"
  using assms
  by (auto simp: deleteHabit_def settle_def Let_def streaks_nonneg_def
        delete_habit_row_def delete_master_rows_def)

lemma mount_nonneg:
  assumes "\<forall>r \<in> set (habits_tbl d). 0 \<le> row_streak r"
  shows "streaks_nonneg (TodayPage (mount_today now d))"
    and "streaks_nonneg (HistoryPage (mount_history now d))"
  using assms getHabitsForDate_nonneg[OF assms]
  by (simp_all add: streaks_nonneg_def mount_today_def mount_history_def fetchHabits_def
        getHabits_eq)

lemma handleDateChange_nonneg:
  assumes "streaks_nonneg (HistoryPage s)"
  shows "streaks_nonneg (HistoryPage (handleDateChange v s))"
proof -
  have r: "\<forall>r \<in> set (habits_tbl (db s)). 0 \<le> row_streak r"
    using assms by (simp add: streaks_nonneg_def)
  show ?thesis using r getHabitsForDate_nonneg[OF r]
    by (simp add: streaks_nonneg_def handleDateChange_def fetchHabits_def)
qed

lemma step_nonneg: "streaks_nonneg a \<Longrightarrow> streaks_nonneg (step a e)"
proof -
  assume n: "streaks_nonneg a"
  then have r: "\<forall>r \<in> set (habits_tbl (the_db a)). 0 \<le> row_streak r"
    by (simp add: streaks_nonneg_def)
  show ?thesis
  proof (cases a)
    case (TodayPage s)
    with n r show ?thesis
      by (cases e)
         (simp_all add: mount_nonneg toggleHabit_nonneg addHabit_nonneg deleteHabit_nonneg,
          simp_all add: streaks_nonneg_def)
  next
    case (HistoryPage s)
    with n r show ?thesis
      by (cases e)
         (simp_all add: mount_nonneg toggleHabit_history_nonneg handleDateChange_nonneg)
  qed
qed

lemma run_nonneg: "streaks_nonneg a \<Longrightarrow> streaks_nonneg (run a evs)"
  unfolding run_def by (induction evs arbitrary: a) (simp_all add: step_nonneg)

lemma launch_nonneg: "streaks_nonneg (launch now)"
  by (simp add: launch_def mount_nonneg initDatabase_def)

section \<open>Running the application\<close>

lemmas eval_defs =
  ascii_def run_def launch_def mount_today_def mount_history_def initDatabase_def
  getHabits_def getHabitsForDate_def select_master_day_def on_day_def lower_def split_T_def
  addHabit_def trim_def is_space_def insert_habit_def settle_def
  toggleHabit_def toggleHabit_history_def toggle_record_def select_master_habit_day_def
  insert_master_def update_master_def update_streak_def newStreak_def
  deleteHabit_def delete_habit_row_def delete_master_rows_def
  fetchHabits_def handleDateChange_def date_toISOString_def
  digit_def digit_val_def days_in_month_def leap_year_def Let_def

lemma in_sync_cols:
  assumes "in_sync d hs"
  shows "map hid hs = map row_id (habits_tbl d)"
    and "map name hs = map row_name (habits_tbl d)"
    and "map streak hs = map row_streak (habits_tbl d)"
proof -
  let ?p = "\<lambda>h. (hid h, name h, streak h)"
  let ?q = "\<lambda>r. (row_id r, row_name r, row_streak r)"
  from assms have e: "map ?p hs = map ?q (habits_tbl d)" by (simp add: in_sync_def)
  have "map fst (map ?p hs) = map fst (map ?q (habits_tbl d))" by (simp only: e)
  then show "map hid hs = map row_id (habits_tbl d)" by (simp add: comp_def)
  have "map (fst \<circ> snd) (map ?p hs) = map (fst \<circ> snd) (map ?q (habits_tbl d))" by (simp only: e)
  then show "map name hs = map row_name (habits_tbl d)" by (simp add: comp_def)
  have "map (snd \<circ> snd) (map ?p hs) = map (snd \<circ> snd) (map ?q (habits_tbl d))" by (simp only: e)
  then show "map streak hs = map row_streak (habits_tbl d)" by (simp add: comp_def)
qed

lemma in_sync_ids: "in_sync d hs \<Longrightarrow> hid ` set hs = row_id ` set (habits_tbl d)"
  using in_sync_cols(1)[of d hs] by (metis set_map)

lemma in_sync_getHabitsForDate: "in_sync d (getHabitsForDate d day)"
  by (simp add: in_sync_def getHabitsForDate_def Let_def comp_def)

text \<open>
  C1. From the first start, or from any state in which no streak is negative, no sequence
  of user actions (opening either page, typing and adding a habit, toggling on either
  page, deleting, changing the date) reaches a state with a negative streak, in the
  habits table or in the list on the page. Every event list is covered, so every
  intermediate state is.
\<close>

theorem streak_never_negative:
  assumes "a = launch now \<or> streaks_nonneg a"
  shows "streaks_nonneg (run a evs)"
  using assms launch_nonneg run_nonneg by blast

theorem streak_never_negative_witness:
  "streaks_nonneg
     (run (launch ''2025-04-14T08:00:00.000Z'')
        [Edit_name (ascii ''Drink water''), Add ''2025-04-14T08:00:05.000Z'',
         Toggle 1 ''2025-04-14T08:01:00.000Z'', Toggle 1 ''2025-04-14T08:02:00.000Z'',
         Open_history ''2025-04-14T08:03:00.000Z'', Change_date ''2025-04-13'',
         Toggle 1 ''2025-04-14T08:04:00.000Z'', Toggle 1 ''2025-04-14T08:05:00.000Z'',
         Toggle 1 ''2025-04-14T08:06:00.000Z'']) \<and>
   map streak (view
     (run (launch ''2025-04-14T08:00:00.000Z'')
        [Edit_name (ascii ''Drink water''), Add ''2025-04-14T08:00:05.000Z'',
         Toggle 1 ''2025-04-14T08:01:00.000Z'', Toggle 1 ''2025-04-14T08:02:00.000Z'',
         Open_history ''2025-04-14T08:03:00.000Z'', Change_date ''2025-04-13'',
         Toggle 1 ''2025-04-14T08:04:00.000Z'', Toggle 1 ''2025-04-14T08:05:00.000Z'',
         Toggle 1 ''2025-04-14T08:06:00.000Z''])) = [1]"
proof -
  have "map streak (view
     (run (launch ''2025-04-14T08:00:00.000Z'')
        [Edit_name (ascii ''Drink water''), Add ''2025-04-14T08:00:05.000Z'',
         Toggle 1 ''2025-04-14T08:01:00.000Z'', Toggle 1 ''2025-04-14T08:02:00.000Z'',
         Open_history ''2025-04-14T08:03:00.000Z'', Change_date ''2025-04-13'',
         Toggle 1 ''2025-04-14T08:04:00.000Z'', Toggle 1 ''2025-04-14T08:05:00.000Z'',
         Toggle 1 ''2025-04-14T08:06:00.000Z''])) = [1]"
    by (simp add: eval_defs)
  then show ?thesis
    using streak_never_negative[of "launch ''2025-04-14T08:00:00.000Z''"
        "''2025-04-14T08:00:00.000Z''"]
    by simp
qed

section \<open>Adding a habit\<close>

text \<open>
  C5 as stated fails: on a name that trims to nothing \<open>addHabit\<close> raises no error; it
  returns, with store and page as they were.
\<close>

theorem addHabit_blank_counterexample:
  "trim (ascii ''  '') = [] \<and>
   \<not> isl (addHabit ''2025-04-14T08:00:00.000Z''
       \<lparr>db = initDatabase, habits = [], newHabitName = ascii ''  '',
        isAddingHabit = True\<rparr>) \<and>
   addHabit ''2025-04-14T08:00:00.000Z''
       \<lparr>db = initDatabase, habits = [], newHabitName = ascii ''  '',
        isAddingHabit = True\<rparr> =
   Inr \<lparr>db = initDatabase, habits = [], newHabitName = ascii ''  '',
         isAddingHabit = True\<rparr>"
  by (simp add: addHabit_def trim_def is_space_def ascii_def)

text \<open>
  C5, amended. On a name that is empty after trimming (white space of any kind, the
  no-break space and the other Unicode spaces among it) \<open>addHabit\<close> returns without an
  error and changes nothing, so no row is stored. On any other name it appends one
  habit row with a key never used before, the trimmed name and streak 0, leaves the
  records alone, none of which refers to the new key, and reloads the list.
\<close>

theorem addHabit_blank_or_named:
  "(trim (newHabitName s) = [] \<longrightarrow> addHabit now s = Inr s) \<and>
   (trim (newHabitName s) \<noteq> [] \<longrightarrow> wf_db (db s) \<longrightarrow>
      (\<exists>s'. addHabit now s = Inr s' \<and>
         habits_tbl (db s') = habits_tbl (db s) @
           [\<lparr>row_id = Suc (habits_seq (db s)), row_name = trim (newHabitName s),
             row_streak = 0\<rparr>] \<and>
         master_tbl (db s') = master_tbl (db s) \<and>
         Suc (habits_seq (db s)) \<notin> row_id ` set (habits_tbl (db s)) \<and>
         (\<forall>m \<in> set (master_tbl (db s')). habit_id m \<noteq> Suc (habits_seq (db s))) \<and>
         habits s' = getHabits (db s') now \<and>
         wf_db (db s')))"
proof (intro conjI impI)
  assume "trim (newHabitName s) = []"
  then show "addHabit now s = Inr s" by (simp add: addHabit_def)
next
  assume n: "trim (newHabitName s) \<noteq> []" and w: "wf_db (db s)"
  let ?d = "insert_habit (trim (newHabitName s)) 0 (db s)"
  let ?s = "s\<lparr>db := ?d, habits := getHabits ?d now, newHabitName := [], isAddingHabit := False\<rparr>"
  have fresh: "Suc (habits_seq (db s)) \<notin> row_id ` set (habits_tbl (db s))"
    using w by (fastforce simp: wf_db_def)
  have orph: "\<forall>m \<in> set (master_tbl (db s)). habit_id m \<noteq> Suc (habits_seq (db s))"
  proof
    fix m assume "m \<in> set (master_tbl (db s))"
    then have "habit_id m \<in> row_id ` set (habits_tbl (db s))"
      using w by (simp add: wf_db_def)
    then show "habit_id m \<noteq> Suc (habits_seq (db s))" using fresh by metis
  qed
  have "addHabit now s = Inr ?s" using n by (simp add: addHabit_def Let_def)
  moreover have "habits_tbl (db ?s) = habits_tbl (db s) @
           [\<lparr>row_id = Suc (habits_seq (db s)), row_name = trim (newHabitName s),
             row_streak = 0\<rparr>]" by (simp add: insert_habit_def)
  moreover have "master_tbl (db ?s) = master_tbl (db s)" by (simp add: insert_habit_def)
  moreover have "\<forall>m \<in> set (master_tbl (db ?s)). habit_id m \<noteq> Suc (habits_seq (db s))"
    using orph by (simp add: insert_habit_def)
  moreover have "habits ?s = getHabits (db ?s) now" by simp
  moreover have "wf_db (db ?s)" using w by (simp add: wf_insert_habit)
  ultimately show "\<exists>s'. addHabit now s = Inr s' \<and>
         habits_tbl (db s') = habits_tbl (db s) @
           [\<lparr>row_id = Suc (habits_seq (db s)), row_name = trim (newHabitName s),
             row_streak = 0\<rparr>] \<and>
         master_tbl (db s') = master_tbl (db s) \<and>
         Suc (habits_seq (db s)) \<notin> row_id ` set (habits_tbl (db s)) \<and>
         (\<forall>m \<in> set (master_tbl (db s')). habit_id m \<noteq> Suc (habits_seq (db s))) \<and>
         habits s' = getHabits (db s') now \<and>
         wf_db (db s')"
    using fresh by blast
qed

theorem addHabit_blank_or_named_witness:
  "trim [32, 160, 10] = [] \<and>
   addHabit ''2025-04-14T08:00:00.000Z''
       \<lparr>db = initDatabase, habits = [], newHabitName = [32, 160, 10],
        isAddingHabit = True\<rparr> =
   Inr \<lparr>db = initDatabase, habits = [], newHabitName = [32, 160, 10],
         isAddingHabit = True\<rparr> \<and>
   trim (160 # ascii ''Read '' @ [8195]) \<noteq> [] \<and> wf_db initDatabase \<and>
   addHabit ''2025-04-14T08:00:00.000Z''
       \<lparr>db = initDatabase, habits = [],
        newHabitName = 160 # ascii ''Read '' @ [8195], isAddingHabit = True\<rparr> =
   Inr \<lparr>db = \<lparr>habits_tbl = [\<lparr>row_id = 1, row_name = ascii ''Read'', row_streak = 0\<rparr>],
               master_tbl = [], habits_seq = 1, master_seq = 0\<rparr>,
         habits = [\<lparr>hid = 1, name = ascii ''Read'', streak = 0, completed = False\<rparr>],
         newHabitName = [], isAddingHabit = False\<rparr>"
proof -
  have t1: "trim [32, 160, 10] = []" by (simp add: trim_def is_space_def)
  have t2: "trim (160 # ascii ''Read '' @ [8195]) = ascii ''Read''"
    by (simp add: trim_def is_space_def ascii_def)
  show ?thesis
    using t1 t2 wf_init
      addHabit_blank_or_named[of
        "\<lparr>db = initDatabase, habits = [], newHabitName = [32, 160, 10],
          isAddingHabit = True\<rparr>"
        "''2025-04-14T08:00:00.000Z''"]
      addHabit_blank_or_named[of
        "\<lparr>db = initDatabase, habits = [],
          newHabitName = 160 # ascii ''Read '' @ [8195], isAddingHabit = True\<rparr>"
        "''2025-04-14T08:00:00.000Z''"]
    by (simp add: eval_defs)
qed

section \<open>Deleting a habit\<close>

lemma deleteHabit_confirmed:
  "deleteHabit i True s =
     Inr (s\<lparr>db := (db s)\<lparr>habits_tbl := filter (\<lambda>r. row_id r \<noteq> i) (habits_tbl (db s)),
                         master_tbl := filter (\<lambda>m. habit_id m \<noteq> i) (master_tbl (db s))\<rparr>,
            habits := filter (\<lambda>h. hid h \<noteq> i) (habits s)\<rparr>)"
  by (simp add: deleteHabit_def Let_def delete_habit_row_def delete_master_rows_def)

lemma delete_db_eq:
  "delete_master_rows i (delete_habit_row i d) =
     d\<lparr>habits_tbl := filter (\<lambda>r. row_id r \<noteq> i) (habits_tbl d),
       master_tbl := filter (\<lambda>m. habit_id m \<noteq> i) (master_tbl d)\<rparr>"
  by (simp add: delete_habit_row_def delete_master_rows_def)

lemma filter_all: "(\<forall>x \<in> set xs. P x) \<Longrightarrow> filter P xs = xs"
  by (simp add: filter_id_conv)

text \<open>
  C4. A delete is made when the user confirms the dialog. It removes the habit row with
  the id and every record that refers to it, from the store and from every later list of
  any day; a well-formed store stays well-formed, so no record is left without its
  habit; deleting again changes nothing more; and when no habit has the id, the store
  and the page are left as they were. No outcome is an error. When the dialog is
  declined no delete is made and nothing changes.
\<close>

theorem deleteHabit_confirmed_or_declined:
  "deleteHabit i False s = Inr s \<and>
   (\<exists>s'. deleteHabit i True s = Inr s' \<and>
      habits_tbl (db s') = filter (\<lambda>r. row_id r \<noteq> i) (habits_tbl (db s)) \<and>
      master_tbl (db s') = filter (\<lambda>m. habit_id m \<noteq> i) (master_tbl (db s)) \<and>
      habits s' = filter (\<lambda>h. hid h \<noteq> i) (habits s) \<and>
      i \<notin> row_id ` set (habits_tbl (db s')) \<and>
      (\<forall>m \<in> set (master_tbl (db s')). habit_id m \<noteq> i) \<and>
      (\<forall>day. i \<notin> hid ` set (getHabitsForDate (db s') day)) \<and>
      (wf_db (db s) \<longrightarrow> wf_db (db s')) \<and>
      deleteHabit i True s' = Inr s' \<and>
      (wf_db (db s) \<and> in_sync (db s) (habits s) \<and> i \<notin> row_id ` set (habits_tbl (db s))
         \<longrightarrow> s' = s))"
proof -
  let ?d = "(db s)\<lparr>habits_tbl := filter (\<lambda>r. row_id r \<noteq> i) (habits_tbl (db s)),
                   master_tbl := filter (\<lambda>m. habit_id m \<noteq> i) (master_tbl (db s))\<rparr>"
  let ?s = "s\<lparr>db := ?d, habits := filter (\<lambda>h. hid h \<noteq> i) (habits s)\<rparr>"
  have a: "deleteHabit i False s = Inr s" by (simp add: deleteHabit_def)
  have b: "deleteHabit i True s = Inr ?s" by (rule deleteHabit_confirmed)
  have c: "i \<notin> row_id ` set (habits_tbl (db ?s))" by auto
  have d: "\<forall>m \<in> set (master_tbl (db ?s)). habit_id m \<noteq> i" by simp
  have e: "\<forall>day. i \<notin> hid ` set (getHabitsForDate (db ?s) day)"
  proof
    fix day
    have "hid ` set (getHabitsForDate (db ?s) day) = row_id ` set (habits_tbl (db ?s))"
      using in_sync_ids[OF in_sync_getHabitsForDate] .
    then show "i \<notin> hid ` set (getHabitsForDate (db ?s) day)" using c by simp
  qed
  have f: "wf_db (db s) \<longrightarrow> wf_db (db ?s)"
    using wf_delete[of "db s" i] by (simp add: delete_db_eq)
  have g: "deleteHabit i True ?s = Inr ?s"
    by (simp add: deleteHabit_confirmed)
  have h: "wf_db (db s) \<and> in_sync (db s) (habits s) \<and> i \<notin> row_id ` set (habits_tbl (db s))
         \<longrightarrow> ?s = s"
  proof
    assume p: "wf_db (db s) \<and> in_sync (db s) (habits s) \<and> i \<notin> row_id ` set (habits_tbl (db s))"
    then have 1: "\<forall>r \<in> set (habits_tbl (db s)). row_id r \<noteq> i" by auto
    have 2: "\<forall>m \<in> set (master_tbl (db s)). habit_id m \<noteq> i"
    proof
      fix m assume "m \<in> set (master_tbl (db s))"
      then have "habit_id m \<in> row_id ` set (habits_tbl (db s))"
        using p by (simp add: wf_db_def)
      then show "habit_id m \<noteq> i" using p by metis
    qed
    have "hid ` set (habits s) = row_id ` set (habits_tbl (db s))"
      using p by (simp add: in_sync_ids)
    then have 3: "\<forall>h \<in> set (habits s). hid h \<noteq> i" using p by auto
    show "?s = s" by (simp add: filter_all[OF 1] filter_all[OF 2] filter_all[OF 3])
  qed
  show ?thesis
    apply (rule conjI[OF a])
    apply (rule exI[of _ ?s])
    apply (intro conjI)
    apply (rule b)
    apply simp
    apply simp
    apply simp
    apply (rule c)
    apply (rule d)
    apply (rule e)
    apply (rule f)
    apply (rule g)
    apply (rule h)
    done
qed


theorem deleteHabit_confirmed_or_declined_witness:
  "wf_db \<lparr>habits_tbl = [\<lparr>row_id = 1, row_name = ascii ''Read'', row_streak = 1\<rparr>,
                          \<lparr>row_id = 2, row_name = ascii ''Run'', row_streak = 0\<rparr>],
           master_tbl = [\<lparr>m_id = 1, habit_id = 1, m_completed = 1, completed_repeats = 0,
                           date = ''2025-04-14T08:00:00.000Z''\<rparr>],
           habits_seq = 2, master_seq = 1\<rparr> \<and>
   deleteHabit 1 True
     \<lparr>db = \<lparr>habits_tbl = [\<lparr>row_id = 1, row_name = ascii ''Read'', row_streak = 1\<rparr>,
                          \<lparr>row_id = 2, row_name = ascii ''Run'', row_streak = 0\<rparr>],
            master_tbl = [\<lparr>m_id = 1, habit_id = 1, m_completed = 1, completed_repeats = 0,
                           date = ''2025-04-14T08:00:00.000Z''\<rparr>],
            habits_seq = 2, master_seq = 1\<rparr>,
      habits = [\<lparr>hid = 1, name = ascii ''Read'', streak = 1, completed = True\<rparr>,
                \<lparr>hid = 2, name = ascii ''Run'', streak = 0, completed = False\<rparr>],
      newHabitName = [], isAddingHabit = False\<rparr> =
   Inr \<lparr>db = \<lparr>habits_tbl = [\<lparr>row_id = 2, row_name = ascii ''Run'', row_streak = 0\<rparr>],
               master_tbl = [], habits_seq = 2, master_seq = 1\<rparr>,
         habits = [\<lparr>hid = 2, name = ascii ''Run'', streak = 0, completed = False\<rparr>],
         newHabitName = [], isAddingHabit = False\<rparr> \<and>
   deleteHabit 1 True
     \<lparr>db = \<lparr>habits_tbl = [\<lparr>row_id = 2, row_name = ascii ''Run'', row_streak = 0\<rparr>],
               master_tbl = [], habits_seq = 2, master_seq = 1\<rparr>,
         habits = [\<lparr>hid = 2, name = ascii ''Run'', streak = 0, completed = False\<rparr>],
         newHabitName = [], isAddingHabit = False\<rparr> =
   Inr \<lparr>db = \<lparr>habits_tbl = [\<lparr>row_id = 2, row_name = ascii ''Run'', row_streak = 0\<rparr>],
               master_tbl = [], habits_seq = 2, master_seq = 1\<rparr>,
         habits = [\<lparr>hid = 2, name = ascii ''Run'', streak = 0, completed = False\<rparr>],
         newHabitName = [], isAddingHabit = False\<rparr>"
  using deleteHabit_confirmed_or_declined[of 1
     "\<lparr>db = \<lparr>habits_tbl = [\<lparr>row_id = 1, row_name = ascii ''Read'', row_streak = 1\<rparr>,
                          \<lparr>row_id = 2, row_name = ascii ''Run'', row_streak = 0\<rparr>],
            master_tbl = [\<lparr>m_id = 1, habit_id = 1, m_completed = 1, completed_repeats = 0,
                           date = ''2025-04-14T08:00:00.000Z''\<rparr>],
            habits_seq = 2, master_seq = 1\<rparr>,
      habits = [\<lparr>hid = 1, name = ascii ''Read'', streak = 1, completed = True\<rparr>,
                \<lparr>hid = 2, name = ascii ''Run'', streak = 0, completed = False\<rparr>],
      newHabitName = [], isAddingHabit = False\<rparr>"]
    deleteHabit_confirmed_or_declined[of 1
     "\<lparr>db = \<lparr>habits_tbl = [\<lparr>row_id = 2, row_name = ascii ''Run'', row_streak = 0\<rparr>],
               master_tbl = [], habits_seq = 2, master_seq = 1\<rparr>,
         habits = [\<lparr>hid = 2, name = ascii ''Run'', streak = 0, completed = False\<rparr>],
         newHabitName = [], isAddingHabit = False\<rparr>"]
  by (simp add: wf_db_def in_sync_def deleteHabit_def delete_habit_row_def
        delete_master_rows_def)

section \<open>Toggling a habit that is not there\<close>

text \<open>
  C6 as stated fails: for an id that is not in the list \<open>toggleHabit\<close> raises no error;
  it returns, with store and page as they were.
\<close>

theorem toggle_unknown_counterexample:
  "\<not> isl (toggleHabit 7 ''2025-04-14T08:00:00.000Z''
     \<lparr>db = \<lparr>habits_tbl = [\<lparr>row_id = 1, row_name = ascii ''Read'', row_streak = 0\<rparr>],
            master_tbl = [], habits_seq = 1, master_seq = 0\<rparr>,
      habits = [\<lparr>hid = 1, name = ascii ''Read'', streak = 0, completed = False\<rparr>],
      newHabitName = [], isAddingHabit = False\<rparr>) \<and>
   toggleHabit 7 ''2025-04-14T08:00:00.000Z''
     \<lparr>db = \<lparr>habits_tbl = [\<lparr>row_id = 1, row_name = ascii ''Read'', row_streak = 0\<rparr>],
            master_tbl = [], habits_seq = 1, master_seq = 0\<rparr>,
      habits = [\<lparr>hid = 1, name = ascii ''Read'', streak = 0, completed = False\<rparr>],
      newHabitName = [], isAddingHabit = False\<rparr> =
   Inr \<lparr>db = \<lparr>habits_tbl = [\<lparr>row_id = 1, row_name = ascii ''Read'', row_streak = 0\<rparr>],
            master_tbl = [], habits_seq = 1, master_seq = 0\<rparr>,
      habits = [\<lparr>hid = 1, name = ascii ''Read'', streak = 0, completed = False\<rparr>],
      newHabitName = [], isAddingHabit = False\<rparr>"
  by (simp add: toggleHabit_def)

text \<open>
  C6, amended. For an id without a habit row, on a page whose list shows the table,
  \<open>toggleHabit\<close> of either page returns without an error and changes neither the store
  nor the page.
\<close>

theorem toggle_unknown_habit:
  "(in_sync (db s) (habits s) \<and> i \<notin> row_id ` set (habits_tbl (db s))
      \<longrightarrow> toggleHabit i now s = Inr s) \<and>
   (in_sync (db h) (habitsForDate h) \<and> i \<notin> row_id ` set (habits_tbl (db h))
      \<longrightarrow> toggleHabit_history i h = Inr h)"
proof (intro conjI impI)
  assume p: "in_sync (db s) (habits s) \<and> i \<notin> row_id ` set (habits_tbl (db s))"
  then have "i \<notin> hid ` set (habits s)"
    using in_sync_ids[of "db s" "habits s"] by auto
  then have "findIndex (\<lambda>x. hid x = i) (habits s) = None"
    by (auto simp: findIndex_None)
  then show "toggleHabit i now s = Inr s" by (simp add: toggleHabit_def)
next
  assume p: "in_sync (db h) (habitsForDate h) \<and> i \<notin> row_id ` set (habits_tbl (db h))"
  then have "i \<notin> hid ` set (habitsForDate h)"
    using in_sync_ids[of "db h" "habitsForDate h"] by auto
  then have "findIndex (\<lambda>x. hid x = i) (habitsForDate h) = None"
    by (auto simp: findIndex_None)
  then show "toggleHabit_history i h = Inr h" by (simp add: toggleHabit_history_def)
qed

theorem toggle_unknown_habit_witness:
  "in_sync \<lparr>habits_tbl = [\<lparr>row_id = 1, row_name = ascii ''Read'', row_streak = 0\<rparr>],
            master_tbl = [], habits_seq = 1, master_seq = 0\<rparr>
           [\<lparr>hid = 1, name = ascii ''Read'', streak = 0, completed = False\<rparr>] \<and>
   toggleHabit 7 ''2025-04-14T08:00:00.000Z''
     \<lparr>db = \<lparr>habits_tbl = [\<lparr>row_id = 1, row_name = ascii ''Read'', row_streak = 0\<rparr>],
            master_tbl = [], habits_seq = 1, master_seq = 0\<rparr>,
      habits = [\<lparr>hid = 1, name = ascii ''Read'', streak = 0, completed = False\<rparr>],
      newHabitName = [], isAddingHabit = False\<rparr> =
   Inr \<lparr>db = \<lparr>habits_tbl = [\<lparr>row_id = 1, row_name = ascii ''Read'', row_streak = 0\<rparr>],
            master_tbl = [], habits_seq = 1, master_seq = 0\<rparr>,
      habits = [\<lparr>hid = 1, name = ascii ''Read'', streak = 0, completed = False\<rparr>],
      newHabitName = [], isAddingHabit = False\<rparr> \<and>
   toggleHabit_history 7
     \<lparr>db = \<lparr>habits_tbl = [\<lparr>row_id = 1, row_name = ascii ''Read'', row_streak = 0\<rparr>],
            master_tbl = [], habits_seq = 1, master_seq = 0\<rparr>,
      selectedDate = ''2025-04-13'',
      habitsForDate = [\<lparr>hid = 1, name = ascii ''Read'', streak = 0, completed = False\<rparr>]\<rparr> =
   Inr \<lparr>db = \<lparr>habits_tbl = [\<lparr>row_id = 1, row_name = ascii ''Read'', row_streak = 0\<rparr>],
            master_tbl = [], habits_seq = 1, master_seq = 0\<rparr>,
      selectedDate = ''2025-04-13'',
      habitsForDate = [\<lparr>hid = 1, name = ascii ''Read'', streak = 0, completed = False\<rparr>]\<rparr>"
  using toggle_unknown_habit[of
     "\<lparr>db = \<lparr>habits_tbl = [\<lparr>row_id = 1, row_name = ascii ''Read'', row_streak = 0\<rparr>],
            master_tbl = [], habits_seq = 1, master_seq = 0\<rparr>,
      habits = [\<lparr>hid = 1, name = ascii ''Read'', streak = 0, completed = False\<rparr>],
      newHabitName = [], isAddingHabit = False\<rparr>" 7
     "''2025-04-14T08:00:00.000Z''"
     "\<lparr>db = \<lparr>habits_tbl = [\<lparr>row_id = 1, row_name = ascii ''Read'', row_streak = 0\<rparr>],
            master_tbl = [], habits_seq = 1, master_seq = 0\<rparr>,
      selectedDate = ''2025-04-13'',
      habitsForDate = [\<lparr>hid = 1, name = ascii ''Read'', streak = 0, completed = False\<rparr>]\<rparr>"]
  by (simp add: in_sync_def)

section \<open>The invariants hold in every reachable state\<close>

lemma in_sync_nth:
  assumes "in_sync d hs" "k < length hs"
  shows "hid (hs ! k) = row_id (habits_tbl d ! k)"
    and "name (hs ! k) = row_name (habits_tbl d ! k)"
    and "streak (hs ! k) = row_streak (habits_tbl d ! k)"
    and "k < length (habits_tbl d)"
proof -
  have l: "length hs = length (habits_tbl d)"
    using in_sync_cols(1)[OF assms(1)] by (metis length_map)
  show "k < length (habits_tbl d)" using l assms(2) by simp
  show "hid (hs ! k) = row_id (habits_tbl d ! k)"
    using in_sync_cols(1)[OF assms(1)] assms(2) l by (metis nth_map)
  show "name (hs ! k) = row_name (habits_tbl d ! k)"
    using in_sync_cols(2)[OF assms(1)] assms(2) l by (metis nth_map)
  show "streak (hs ! k) = row_streak (habits_tbl d ! k)"
    using in_sync_cols(3)[OF assms(1)] assms(2) l by (metis nth_map)
qed

lemma in_sync_toggle:
  assumes w: "wf_db d" and s: "in_sync d hs"
    and k: "findIndex (\<lambda>h. hid h = i) hs = Some k"
    and h: "habits_tbl d1 = habits_tbl d"
  shows "in_sync (update_streak n i d1) (hs[k := (hs ! k)\<lparr>completed := c, streak := n\<rparr>])"
proof -
  let ?H = "habits_tbl d"
  from findIndex_Some[OF k] have kl: "k < length hs" and ki: "hid (hs ! k) = i" by auto
  note nth = in_sync_nth[OF s kl]
  have d: "distinct (map row_id ?H)" using w by (simp add: wf_db_def)
  have i: "i = row_id (?H ! k)" using ki nth(1) by simp
  have "habits_tbl (update_streak n i d1) =
        map (\<lambda>r. if row_id r = row_id (?H ! k) then r\<lparr>row_streak := n\<rparr> else r) ?H"
    by (simp add: update_streak_def h i)
  also have "\<dots> = ?H[k := (?H ! k)\<lparr>row_streak := n\<rparr>]"
    using map_key_update[OF d nth(4), of "\<lambda>r. r\<lparr>row_streak := n\<rparr>"] .
  finally have t: "habits_tbl (update_streak n i d1) = ?H[k := (?H ! k)\<lparr>row_streak := n\<rparr>]" .
  have e: "map (\<lambda>h. (hid h, name h, streak h)) hs =
           map (\<lambda>r. (row_id r, row_name r, row_streak r)) ?H"
    using s by (simp add: in_sync_def)
  show ?thesis
    unfolding in_sync_def t
    by (simp add: map_update e nth)
qed

lemma in_sync_filter:
  assumes "in_sync d hs"
  shows "in_sync (delete_master_rows i (delete_habit_row i d)) (filter (\<lambda>h. hid h \<noteq> i) hs)"
proof -
  let ?p = "\<lambda>h. (hid h, name h, streak h)"
  let ?q = "\<lambda>r. (row_id r, row_name r, row_streak r)"
  from assms have e: "map ?p hs = map ?q (habits_tbl d)" by (simp add: in_sync_def)
  have "map ?p (filter (\<lambda>h. hid h \<noteq> i) hs) = filter (\<lambda>t. fst t \<noteq> i) (map ?p hs)"
    by (simp add: filter_map comp_def)
  also have "\<dots> = filter (\<lambda>t. fst t \<noteq> i) (map ?q (habits_tbl d))" by (simp only: e)
  also have "\<dots> = map ?q (filter (\<lambda>r. row_id r \<noteq> i) (habits_tbl d))"
    by (simp add: filter_map comp_def)
  finally show ?thesis
    by (simp add: in_sync_def delete_db_eq)
qed

lemma step_wf_sync:
  assumes "wf_db (the_db a)" "in_sync (the_db a) (view a)"
  shows "wf_db (the_db (step a e)) \<and> in_sync (the_db (step a e)) (view (step a e))"
proof (cases a)
  case (TodayPage s)
  with assms have w: "wf_db (db s)" and y: "in_sync (db s) (habits s)" by simp_all
  show ?thesis
  proof (cases e)
    case (Toggle i now)
    show ?thesis
    proof (cases "findIndex (\<lambda>h. hid h = i) (habits s)")
      case None
      then show ?thesis using TodayPage Toggle w y by (simp add: toggleHabit_def settle_def)
    next
      case (Some k)
      from findIndex_Some[OF Some] have "i \<in> hid ` set (habits s)" by force
      then have m: "i \<in> row_id ` set (habits_tbl (db s))" using in_sync_ids[OF y] by simp
      let ?tr = "toggle_record i (split_T now) now (db s)"
      let ?n = "newStreak (fst ?tr) (streak (habits s ! k))"
      have 1: "wf_db (update_streak ?n i (snd ?tr))"
        using wf_update_streak[OF wf_toggle_record[OF w m]] .
      have 2: "in_sync (update_streak ?n i (snd ?tr))
                 ((habits s)[k := (habits s ! k)\<lparr>completed := fst ?tr, streak := ?n\<rparr>])"
        using in_sync_toggle[OF w y Some] toggle_record_habits by blast
      show ?thesis using TodayPage Toggle Some 1 2
        by (simp add: toggleHabit_def settle_def Let_def split_beta)
    qed
  next
    case (Add now)
    show ?thesis using TodayPage Add w y
      by (simp add: addHabit_def settle_def Let_def wf_insert_habit getHabits_eq
            in_sync_getHabitsForDate)
  next
    case (Delete i c)
    show ?thesis using TodayPage Delete w y wf_delete[OF w, of i] in_sync_filter[OF y, of i]
      by (simp add: deleteHabit_def settle_def Let_def)
  qed (use TodayPage w y in \<open>simp_all add: mount_today_def mount_history_def fetchHabits_def
         getHabits_eq in_sync_getHabitsForDate\<close>)
next
  case (HistoryPage s)
  with assms have w: "wf_db (db s)" and y: "in_sync (db s) (habitsForDate s)" by simp_all
  show ?thesis
  proof (cases e)
    case (Toggle i now)
    show ?thesis
    proof (cases "findIndex (\<lambda>h. hid h = i) (habitsForDate s)")
      case None
      then show ?thesis using HistoryPage Toggle w y
        by (simp add: toggleHabit_history_def settle_def)
    next
      case (Some k)
      from findIndex_Some[OF Some] have "i \<in> hid ` set (habitsForDate s)" by force
      then have m: "i \<in> row_id ` set (habits_tbl (db s))" using in_sync_ids[OF y] by simp
      show ?thesis
      proof (cases "date_toISOString (selectedDate s)")
        case (Inl err)
        then show ?thesis using HistoryPage Toggle Some w y
          by (simp add: toggleHabit_history_def settle_def)
      next
        case (Inr ts)
        let ?tr = "toggle_record i (selectedDate s) ts (db s)"
        let ?n = "newStreak (fst ?tr) (streak (habitsForDate s ! k))"
        have 1: "wf_db (update_streak ?n i (snd ?tr))"
          using wf_update_streak[OF wf_toggle_record[OF w m]] .
        have 2: "in_sync (update_streak ?n i (snd ?tr))
                 ((habitsForDate s)[k := (habitsForDate s ! k)\<lparr>completed := fst ?tr, streak := ?n\<rparr>])"
          using in_sync_toggle[OF w y Some] toggle_record_habits by blast
        show ?thesis using HistoryPage Toggle Some Inr 1 2
          by (simp add: toggleHabit_history_def settle_def Let_def split_beta)
      qed
    qed
  qed (use HistoryPage w y in \<open>simp_all add: mount_today_def mount_history_def fetchHabits_def
         handleDateChange_def getHabits_eq in_sync_getHabitsForDate\<close>)
qed

lemma step_ok: "app_ok a \<Longrightarrow> app_ok (step a e)"
  using step_wf_sync[of a e] step_nonneg[of a e] by (simp add: app_ok_def)

lemma run_ok: "app_ok a \<Longrightarrow> app_ok (run a evs)"
  unfolding run_def by (induction evs arbitrary: a) (simp_all add: step_ok)

lemma launch_ok: "app_ok (launch now)"
  using launch_nonneg[of now]
  by (simp add: app_ok_def launch_def mount_today_def wf_init getHabits_eq
        in_sync_getHabitsForDate)

section \<open>What a toggle does to the records\<close>

lemma prefix_same_length: "prefix xs zs \<Longrightarrow> prefix ys zs \<Longrightarrow> length xs = length ys \<Longrightarrow> xs = ys"
  by (auto simp: prefix_def)

lemma other_day:
  assumes "valid_date d1" "valid_date d2" "d1 \<noteq> d2" "prefix d1 x"
  shows "\<not> prefix d2 x"
  using assms valid_date_plain[of d1] valid_date_plain[of d2] prefix_same_length[of d1 x d2]
  by auto

lemma other_day_on:
  assumes "valid_date d1" "valid_date d2" "d1 \<noteq> d2" "on_day d1 m"
  shows "\<not> on_day d2 m"
  using assms other_day[of d1 d2 "date m"] by (simp add: on_day_prefix)

lemma filter_map_unchanged:
  "(\<forall>x \<in> set xs. f x \<noteq> x \<longrightarrow> \<not> P x \<and> \<not> P (f x)) \<Longrightarrow> filter P (map f xs) = filter P xs"
  by (induction xs) auto

lemma find_filter_hd: "find P xs = (case filter P xs of [] \<Rightarrow> None | x # _ \<Rightarrow> Some x)"
  by (induction xs) auto

lemma toggle_record_master_found:
  assumes w: "wf_db d"
    and f: "find (\<lambda>m. habit_id m = i \<and> on_day day m) (master_tbl d) = Some r"
  shows "master_tbl (snd (toggle_record i day ts d)) =
           map (\<lambda>m. if m = r then r\<lparr>m_completed := (if m_completed r = 0 then 1 else 0),
                                      date := ts\<rparr> else m) (master_tbl d)"
proof -
  have d: "distinct (map m_id (master_tbl d))" using w by (simp add: wf_db_def)
  have r: "r \<in> set (master_tbl d)" using find_mem[OF f] by simp
  have "\<forall>m \<in> set (master_tbl d). (m_id m = m_id r) = (m = r)"
    using key_unique[OF d _ r] by auto
  then show ?thesis
    by (simp add: toggle_record_found[OF f] update_master_def cong: map_cong)
qed

lemma toggle_record_master_missing:
  assumes "find (\<lambda>m. habit_id m = i \<and> on_day day m) (master_tbl d) = None"
  shows "master_tbl (snd (toggle_record i day ts d)) =
           master_tbl d @ [\<lparr>m_id = Suc (master_seq d), habit_id = i, m_completed = 1,
                             completed_repeats = 0, date = ts\<rparr>]"
  by (simp add: toggle_record_missing[OF assms] insert_master_def)

lemma completed_on_find':
  "completed_on d i day =
     (case find (\<lambda>m. habit_id m = i \<and> on_day day m) (master_tbl d) of
        Some m \<Rightarrow> m_completed m \<noteq> 0 | None \<Rightarrow> False)"
proof -
  have "(\<lambda>m. on_day day m \<and> habit_id m = i) = (\<lambda>m. habit_id m = i \<and> on_day day m)" by auto
  then show ?thesis by (simp add: completed_on_find)
qed

lemma toggle_record_fst: "fst (toggle_record i day ts d) = (\<not> completed_on d i day)"
  by (cases "find (\<lambda>m. habit_id m = i \<and> on_day day m) (master_tbl d)")
     (simp_all add: toggle_record_found toggle_record_missing completed_on_find')

lemma toggle_record_same_day:
  assumes w: "wf_db d" and t: "like (day @ ''%'') ts"
  shows "completed_on (snd (toggle_record i day ts d)) i day = (\<not> completed_on d i day)"
proof (cases "find (\<lambda>m. habit_id m = i \<and> on_day day m) (master_tbl d)")
  case None
  then have "find (\<lambda>m. habit_id m = i \<and> on_day day m)
               (master_tbl (snd (toggle_record i day ts d))) =
             Some \<lparr>m_id = Suc (master_seq d), habit_id = i, m_completed = 1,
                             completed_repeats = 0, date = ts\<rparr>"
    using t by (simp add: toggle_record_master_missing find_append_new on_day_def)
  then show ?thesis using None by (simp add: completed_on_find')
next
  case (Some r)
  let ?r' = "r\<lparr>m_completed := (if m_completed r = 0 then 1 else 0), date := ts\<rparr>"
  let ?f = "\<lambda>m. if m = r then ?r' else m"
  have q: "habit_id r = i \<and> on_day day r" using find_mem[OF Some] by simp
  have "\<forall>m \<in> set (master_tbl d).
          (habit_id (?f m) = i \<and> on_day day (?f m)) = (habit_id m = i \<and> on_day day m)"
    using q t by (simp add: on_day_def)
  then have "find (\<lambda>m. habit_id m = i \<and> on_day day m) (map ?f (master_tbl d)) = Some ?r'"
    using find_map_preserve[of "master_tbl d" "\<lambda>m. habit_id m = i \<and> on_day day m" ?f] Some
    by simp
  then show ?thesis
    using Some by (simp add: completed_on_find' toggle_record_master_found[OF w Some])
qed

lemma toggle_record_frame:
  assumes w: "wf_db d"
    and p: "\<And>m. P m \<Longrightarrow> \<not> (habit_id m = i \<and> (on_day day m \<or> date m = ts))"
  shows "filter P (master_tbl (snd (toggle_record i day ts d))) = filter P (master_tbl d)"
proof (cases "find (\<lambda>m. habit_id m = i \<and> on_day day m) (master_tbl d)")
  case None
  have "\<not> P \<lparr>m_id = Suc (master_seq d), habit_id = i, m_completed = 1,
                             completed_repeats = 0, date = ts\<rparr>"
    using p by fastforce
  then show ?thesis by (simp add: toggle_record_master_missing[OF None])
next
  case (Some r)
  let ?r' = "r\<lparr>m_completed := (if m_completed r = 0 then 1 else 0), date := ts\<rparr>"
  let ?f = "\<lambda>m. if m = r then ?r' else m"
  have q: "habit_id r = i \<and> on_day day r" using find_mem[OF Some] by simp
  have 1: "\<not> P r" using p q by blast
  have 2: "\<not> P ?r'" using p[of ?r'] q by auto
  have "\<forall>m \<in> set (master_tbl d). ?f m \<noteq> m \<longrightarrow> \<not> P m \<and> \<not> P (?f m)"
    using 1 2 by (auto split: if_splits)
  then have "filter P (map ?f (master_tbl d)) = filter P (master_tbl d)"
    by (rule filter_map_unchanged)
  then show ?thesis by (simp add: toggle_record_master_found[OF w Some])
qed

lemma completed_on_filter:
  "filter (\<lambda>m. habit_id m = i \<and> on_day day m) (master_tbl d') =
   filter (\<lambda>m. habit_id m = i \<and> on_day day m) (master_tbl d) \<Longrightarrow>
   completed_on d' i day = completed_on d i day"
  by (simp add: completed_on_find' find_filter_hd)

text \<open>
  C2 as stated fails on the history page: the record inserted there carries the selected
  day at midnight UTC, whatever the clock reads.
\<close>

theorem toggle_history_stamp_counterexample:
  "toggleHabit_history 1
     \<lparr>db = \<lparr>habits_tbl = [\<lparr>row_id = 1, row_name = ascii ''Read'', row_streak = 0\<rparr>],
            master_tbl = [], habits_seq = 1, master_seq = 0\<rparr>,
      selectedDate = ''2025-04-10'',
      habitsForDate = [\<lparr>hid = 1, name = ascii ''Read'', streak = 0, completed = False\<rparr>]\<rparr> =
   Inr \<lparr>db = \<lparr>habits_tbl = [\<lparr>row_id = 1, row_name = ascii ''Read'', row_streak = 1\<rparr>],
               master_tbl = [\<lparr>m_id = 1, habit_id = 1, m_completed = 1, completed_repeats = 0,
                              date = ''2025-04-10T00:00:00.000Z''\<rparr>],
               habits_seq = 1, master_seq = 1\<rparr>,
         selectedDate = ''2025-04-10'',
         habitsForDate = [\<lparr>hid = 1, name = ascii ''Read'', streak = 1, completed = True\<rparr>]\<rparr> \<and>
   step (HistoryPage
     \<lparr>db = \<lparr>habits_tbl = [\<lparr>row_id = 1, row_name = ascii ''Read'', row_streak = 0\<rparr>],
            master_tbl = [], habits_seq = 1, master_seq = 0\<rparr>,
      selectedDate = ''2025-04-10'',
      habitsForDate = [\<lparr>hid = 1, name = ascii ''Read'', streak = 0, completed = False\<rparr>]\<rparr>)
     (Toggle 1 ''2025-04-14T09:30:00.000Z'') =
   HistoryPage
     \<lparr>db = \<lparr>habits_tbl = [\<lparr>row_id = 1, row_name = ascii ''Read'', row_streak = 1\<rparr>],
               master_tbl = [\<lparr>m_id = 1, habit_id = 1, m_completed = 1, completed_repeats = 0,
                              date = ''2025-04-10T00:00:00.000Z''\<rparr>],
               habits_seq = 1, master_seq = 1\<rparr>,
         selectedDate = ''2025-04-10'',
         habitsForDate = [\<lparr>hid = 1, name = ascii ''Read'', streak = 1, completed = True\<rparr>]\<rparr> \<and>
   ''2025-04-10T00:00:00.000Z'' \<noteq> ''2025-04-14T09:30:00.000Z''"
  by (simp add: eval_defs)

text \<open>
  C2, amended. A toggle looks for the first record of the habit whose date text starts
  with the day \<open>YYYY-MM-DD\<close> it addresses. If there is one, that record has its
  completed flag flipped and its date restamped, in place: the table keeps its length
  and every other record. If there is none, one record is appended, completed, with a
  new key. The timestamp written is the clock reading on the today page and the selected
  day at midnight UTC on the history page.
\<close>

theorem toggle_flips_or_inserts:
  assumes w: "wf_db (the_db a)" and i: "i \<in> hid ` set (view a)"
    and v: "valid_date (toggle_day a now)"
  shows "(case find (\<lambda>m. habit_id m = i \<and> prefix (toggle_day a now) (date m))
                (master_tbl (the_db a)) of
            Some r \<Rightarrow>
              master_tbl (the_db (step a (Toggle i now))) =
                map (\<lambda>m. if m = r
                          then r\<lparr>m_completed := (if m_completed r = 0 then 1 else 0),
                                 date := toggle_stamp a now\<rparr>
                          else m) (master_tbl (the_db a))
          | None \<Rightarrow>
              master_tbl (the_db (step a (Toggle i now))) =
                master_tbl (the_db a) @
                  [\<lparr>m_id = Suc (master_seq (the_db a)), habit_id = i, m_completed = 1,
                    completed_repeats = 0, date = toggle_stamp a now\<rparr>]) \<and>
         toggle_stamp a now =
           (case a of TodayPage s \<Rightarrow> now
                    | HistoryPage s \<Rightarrow> selectedDate s @ ''T00:00:00.000Z'')"
proof -
  from i obtain k where k: "findIndex (\<lambda>h. hid h = i) (view a) = Some k"
    using findIndex_exists[of _ "view a" "\<lambda>h. hid h = i"] by auto
  let ?D = "toggle_day a now" and ?ts = "toggle_stamp a now"
  have m: "master_tbl (the_db (step a (Toggle i now))) =
           master_tbl (snd (toggle_record i ?D ?ts (the_db a)))"
    by (simp add: toggle_step(1)[OF k v] update_streak_cols)
  have p: "(\<lambda>m. habit_id m = i \<and> prefix ?D (date m)) = (\<lambda>m. habit_id m = i \<and> on_day ?D m)"
    by (simp add: on_day_prefix[OF v])
  have s: "toggle_stamp a now =
           (case a of TodayPage s \<Rightarrow> now
                    | HistoryPage s \<Rightarrow> selectedDate s @ ''T00:00:00.000Z'')"
    by (cases a) simp_all
  show ?thesis
  proof (cases "find (\<lambda>m. habit_id m = i \<and> on_day ?D m) (master_tbl (the_db a))")
    case None
    then show ?thesis
      using s by (simp add: p m toggle_record_master_missing[OF None])
  next
    case (Some r)
    then show ?thesis
      using s by (simp add: p m toggle_record_master_found[OF w Some])
  qed
qed

theorem toggle_flips_or_inserts_witness:
  "wf_db \<lparr>habits_tbl = [\<lparr>row_id = 1, row_name = ascii ''Read'', row_streak = 0\<rparr>],
          master_tbl = [], habits_seq = 1, master_seq = 0\<rparr> \<and>
   valid_date (split_T ''2025-04-14T09:30:00.000Z'') \<and>
   master_tbl (the_db (step (TodayPage
     \<lparr>db = \<lparr>habits_tbl = [\<lparr>row_id = 1, row_name = ascii ''Read'', row_streak = 0\<rparr>],
            master_tbl = [], habits_seq = 1, master_seq = 0\<rparr>,
      habits = [\<lparr>hid = 1, name = ascii ''Read'', streak = 0, completed = False\<rparr>],
      newHabitName = [], isAddingHabit = False\<rparr>) (Toggle 1 ''2025-04-14T09:30:00.000Z''))) =
     [\<lparr>m_id = 1, habit_id = 1, m_completed = 1, completed_repeats = 0,
       date = ''2025-04-14T09:30:00.000Z''\<rparr>] \<and>
   wf_db \<lparr>habits_tbl = [\<lparr>row_id = 1, row_name = ascii ''Read'', row_streak = 1\<rparr>],
          master_tbl = [\<lparr>m_id = 1, habit_id = 1, m_completed = 1, completed_repeats = 0,
                          date = ''2025-04-10T17:45:10.250Z''\<rparr>],
          habits_seq = 1, master_seq = 1\<rparr> \<and>
   valid_date ''2025-04-10'' \<and>
   master_tbl (the_db (step (HistoryPage
     \<lparr>db = \<lparr>habits_tbl = [\<lparr>row_id = 1, row_name = ascii ''Read'', row_streak = 1\<rparr>],
            master_tbl = [\<lparr>m_id = 1, habit_id = 1, m_completed = 1, completed_repeats = 0,
                          date = ''2025-04-10T17:45:10.250Z''\<rparr>],
            habits_seq = 1, master_seq = 1\<rparr>,
      selectedDate = ''2025-04-10'',
      habitsForDate = [\<lparr>hid = 1, name = ascii ''Read'', streak = 1, completed = True\<rparr>]\<rparr>)
     (Toggle 1 ''2025-04-14T09:30:00.000Z''))) =
     [\<lparr>m_id = 1, habit_id = 1, m_completed = 0, completed_repeats = 0,
       date = ''2025-04-10T00:00:00.000Z''\<rparr>]"
proof -
  let ?a = "TodayPage
     \<lparr>db = \<lparr>habits_tbl = [\<lparr>row_id = 1, row_name = ascii ''Read'', row_streak = 0\<rparr>],
            master_tbl = [], habits_seq = 1, master_seq = 0\<rparr>,
      habits = [\<lparr>hid = 1, name = ascii ''Read'', streak = 0, completed = False\<rparr>],
      newHabitName = [], isAddingHabit = False\<rparr>"
  let ?b = "HistoryPage
     \<lparr>db = \<lparr>habits_tbl = [\<lparr>row_id = 1, row_name = ascii ''Read'', row_streak = 1\<rparr>],
            master_tbl = [\<lparr>m_id = 1, habit_id = 1, m_completed = 1, completed_repeats = 0,
                          date = ''2025-04-10T17:45:10.250Z''\<rparr>],
            habits_seq = 1, master_seq = 1\<rparr>,
      selectedDate = ''2025-04-10'',
      habitsForDate = [\<lparr>hid = 1, name = ascii ''Read'', streak = 1, completed = True\<rparr>]\<rparr>"
  have wa: "wf_db (the_db ?a)" by (simp add: wf_db_def)
  have wb: "wf_db (the_db ?b)" by (simp add: wf_db_def)
  have ia: "1 \<in> hid ` set (view ?a)" by simp
  have ib: "1 \<in> hid ` set (view ?b)" by simp
  have va: "valid_date (toggle_day ?a ''2025-04-14T09:30:00.000Z'')"
    by (simp add: split_T_def digit_def digit_val_def days_in_month_def leap_year_def)
  have vb: "valid_date (toggle_day ?b ''2025-04-14T09:30:00.000Z'')"
    by (simp add: digit_def digit_val_def days_in_month_def leap_year_def)
  show ?thesis
    using wa wb va vb toggle_flips_or_inserts[OF wa ia va] toggle_flips_or_inserts[OF wb ib vb]
    by (simp add: split_T_def)
qed

section \<open>Toggling twice\<close>

lemma findIndex_update:
  "findIndex P xs = Some k \<Longrightarrow> P x' \<Longrightarrow> findIndex P (xs[k := x']) = Some k"
proof (induction xs arbitrary: k)
  case Nil
  then show ?case by simp
next
  case (Cons x xs)
  show ?case
  proof (cases "P x")
    case True
    with Cons.prems show ?thesis by simp
  next
    case False
    with Cons.prems obtain k' where k': "findIndex P xs = Some k'" "k = Suc k'" by auto
    from Cons.IH[OF k'(1) Cons.prems(2)] False k'(2) show ?thesis by simp
  qed
qed

lemma completed_on_master:
  "master_tbl d' = master_tbl d \<Longrightarrow> completed_on d' i day = completed_on d i day"
  by (simp add: completed_on_def select_master_day_def)

lemma stamp_like:
  assumes "valid_date (toggle_day a now)"
  shows "like (toggle_day a now @ ''%'') (toggle_stamp a now)"
  using assms toggle_stamp_prefix[of a now] by (simp add: like_prefix valid_date_plain)

lemma newStreak_back:
  assumes "0 \<le> n" "\<not> c \<Longrightarrow> n \<noteq> 0"
  shows "newStreak (\<not> c) (newStreak c n) = n"
  using assms by (cases c) (auto simp: newStreak_def)

lemma update_streak_same:
  assumes "\<forall>r \<in> set (habits_tbl d). row_id r = i \<longrightarrow> row_streak r = n"
  shows "map (\<lambda>r. if row_id r = i then r\<lparr>row_streak := n\<rparr> else r) (habits_tbl d) = habits_tbl d"
proof -
  have "\<forall>r \<in> set (habits_tbl d). (if row_id r = i then r\<lparr>row_streak := n\<rparr> else r) = r"
    using assms by auto
  then show ?thesis by (simp add: map_idI)
qed

lemma row_of_view:
  assumes w: "wf_db d" and s: "in_sync d hs" and k: "findIndex (\<lambda>h. hid h = i) hs = Some k"
  shows "\<forall>r \<in> set (habits_tbl d). row_id r = i \<longrightarrow> row_streak r = streak (hs ! k)"
proof (intro ballI impI)
  fix r assume r: "r \<in> set (habits_tbl d)" and ri: "row_id r = i"
  from findIndex_Some[OF k] have kl: "k < length hs" and ki: "hid (hs ! k) = i" by auto
  note nth = in_sync_nth[OF s kl]
  have d: "distinct (map row_id (habits_tbl d))" using w by (simp add: wf_db_def)
  have "habits_tbl d ! k \<in> set (habits_tbl d)" using nth(4) by simp
  then have "r = habits_tbl d ! k"
    using key_unique[OF d r, of "habits_tbl d ! k"] ri ki nth(1) by simp
  then show "row_streak r = streak (hs ! k)" using nth(3) by simp
qed

lemma toggle_twice_core:
  assumes ok: "app_ok a" and k: "findIndex (\<lambda>h. hid h = i) (view a) = Some k"
    and v: "valid_date (toggle_day a now1)"
    and same: "toggle_day a now2 = toggle_day a now1"
    and floor: "completed_on (the_db a) i (toggle_day a now1) \<Longrightarrow> streak (view a ! k) \<noteq> 0"
  shows "completed_on (the_db (step a (Toggle i now1))) i (toggle_day a now1) =
           (\<not> completed_on (the_db a) i (toggle_day a now1))"
    and "completed_on (the_db (step (step a (Toggle i now1)) (Toggle i now2))) i
           (toggle_day a now1) = completed_on (the_db a) i (toggle_day a now1)"
    and "habits_tbl (the_db (step (step a (Toggle i now1)) (Toggle i now2))) =
           habits_tbl (the_db a)"
    and "map streak (view (step (step a (Toggle i now1)) (Toggle i now2))) =
           map streak (view a)"
proof -
  let ?D = "toggle_day a now1"
  let ?d = "the_db a" and ?hs = "view a"
  let ?a1 = "step a (Toggle i now1)"
  let ?a2 = "step ?a1 (Toggle i now2)"
  let ?TR1 = "toggle_record i ?D (toggle_stamp a now1) ?d"
  let ?c1 = "fst ?TR1"
  let ?s = "streak (?hs ! k)"
  let ?n1 = "newStreak ?c1 ?s"
  from ok have w: "wf_db ?d" and y: "in_sync ?d ?hs" and nn: "streaks_nonneg a"
    by (simp_all add: app_ok_def)
  from findIndex_Some[OF k] have kl: "k < length ?hs" and ki: "hid (?hs ! k) = i" by auto
  have s0: "0 \<le> ?s" using nn kl by (simp add: streaks_nonneg_def)
  have c1: "?c1 = (\<not> completed_on ?d i ?D)" by (rule toggle_record_fst)
  note st1 = toggle_step[OF k v]
  have db1: "the_db ?a1 = update_streak ?n1 i (snd ?TR1)" by (rule st1(1))
  have v1: "view ?a1 = ?hs[k := (?hs ! k)\<lparr>completed := ?c1, streak := ?n1\<rparr>]" by (rule st1(2))
  have ok1: "app_ok ?a1" using step_ok[OF ok] .
  then have w1: "wf_db (the_db ?a1)" by (simp add: app_ok_def)
  have co1: "completed_on (the_db ?a1) i ?D = (\<not> completed_on ?d i ?D)"
    using toggle_record_same_day[OF w stamp_like[OF v], of i]
    by (simp add: db1 completed_on_master[of "update_streak ?n1 i (snd ?TR1)" "snd ?TR1"]
          update_streak_cols)
  show "completed_on (the_db ?a1) i ?D = (\<not> completed_on ?d i ?D)" by (rule co1)
  have k1: "findIndex (\<lambda>h. hid h = i) (view ?a1) = Some k"
    unfolding v1 using findIndex_update[OF k, of "(?hs ! k)\<lparr>completed := ?c1, streak := ?n1\<rparr>"] ki
    by simp
  have D2: "toggle_day ?a1 now2 = ?D" using st1(3)[of now2] same by simp
  have v2: "valid_date (toggle_day ?a1 now2)" using D2 v by simp
  let ?TR2 = "toggle_record i ?D (toggle_stamp ?a1 now2) (the_db ?a1)"
  let ?c2 = "fst ?TR2"
  let ?n2 = "newStreak ?c2 (streak (view ?a1 ! k))"
  note st2 = toggle_step[OF k1 v2, unfolded D2]
  have c2: "?c2 = (\<not> ?c1)" using toggle_record_fst[of i ?D "toggle_stamp ?a1 now2" "the_db ?a1"] co1 c1
    by simp
  have sk1: "streak (view ?a1 ! k) = ?n1" using kl by (simp add: v1)
  have n2: "?n2 = ?s"
    unfolding sk1 c2 using newStreak_back[OF s0, of ?c1] floor c1 by auto
  have db2: "the_db ?a2 = update_streak ?s i (snd ?TR2)" using st2(1) n2 by simp
  have "habits_tbl (the_db ?a2) =
        map (\<lambda>r. if row_id r = i then r\<lparr>row_streak := ?s\<rparr> else r)
          (map (\<lambda>r. if row_id r = i then r\<lparr>row_streak := ?n1\<rparr> else r) (habits_tbl ?d))"
    by (simp add: db2 update_streak_def toggle_record_habits db1)
  also have "\<dots> = map (\<lambda>r. if row_id r = i then r\<lparr>row_streak := ?s\<rparr> else r) (habits_tbl ?d)"
    by (simp add: comp_def if_distrib cong: if_cong)
  also have "\<dots> = habits_tbl ?d"
    using update_streak_same[OF row_of_view[OF w y k]] .
  finally show "habits_tbl (the_db ?a2) = habits_tbl ?d" .
  have like2: "like (?D @ ''%'') (toggle_stamp ?a1 now2)"
    using stamp_like[OF v2] D2 by simp
  have "completed_on (the_db ?a2) i ?D = completed_on (snd ?TR2) i ?D"
    by (simp add: db2 completed_on_master[of "update_streak ?s i (snd ?TR2)" "snd ?TR2"]
          update_streak_cols)
  also have "\<dots> = (\<not> completed_on (the_db ?a1) i ?D)"
    using toggle_record_same_day[OF w1 like2, of i] .
  finally show "completed_on (the_db ?a2) i ?D = completed_on ?d i ?D" using co1 by simp
  have "view ?a2 = (view ?a1)[k := (view ?a1 ! k)\<lparr>completed := ?c2, streak := ?s\<rparr>]"
    using st2(2) n2 by simp
  then have "map streak (view ?a2) = (map streak ?hs)[k := ?s]"
    by (simp add: v1 map_update)
  also have "\<dots> = map streak ?hs"
    using kl by (metis list_update_id nth_map)
  finally show "map streak (view ?a2) = map streak ?hs" .
qed

text \<open>
  C3. Two toggles in a row of the same habit for the same day, on either page, leave the
  day's completed flag as it was before the pair (the first toggle inverts it, the second
  inverts it back) and leave the habit's streak as it was, in the table and on the page,
  provided the streak is not 0 when it is decremented, that is, when the habit was
  completed before the pair.
\<close>

theorem toggle_twice_restores:
  assumes "app_ok a" and "i \<in> hid ` set (view a)"
    and "valid_date (toggle_day a now1)"
    and "toggle_day a now2 = toggle_day a now1"
    and "completed_on (the_db a) i (toggle_day a now1) \<longrightarrow>
           (\<forall>h \<in> set (view a). hid h = i \<longrightarrow> streak h \<noteq> 0)"
  shows "completed_on (the_db (step a (Toggle i now1))) i (toggle_day a now1) =
           (\<not> completed_on (the_db a) i (toggle_day a now1)) \<and>
         completed_on (the_db (step (step a (Toggle i now1)) (Toggle i now2))) i
           (toggle_day a now1) = completed_on (the_db a) i (toggle_day a now1) \<and>
         habits_tbl (the_db (step (step a (Toggle i now1)) (Toggle i now2))) =
           habits_tbl (the_db a) \<and>
         map streak (view (step (step a (Toggle i now1)) (Toggle i now2))) =
           map streak (view a)"
proof -
  from assms(2) obtain k where k: "findIndex (\<lambda>h. hid h = i) (view a) = Some k"
    using findIndex_exists[of _ "view a" "\<lambda>h. hid h = i"] by auto
  from findIndex_Some[OF k] have "view a ! k \<in> set (view a)" "hid (view a ! k) = i" by auto
  then have f: "completed_on (the_db a) i (toggle_day a now1) \<Longrightarrow> streak (view a ! k) \<noteq> 0"
    using assms(5) by blast
  show ?thesis
    using toggle_twice_core[OF assms(1) k assms(3) assms(4) f] by simp
qed

theorem toggle_twice_restores_witness:
  "app_ok (TodayPage
     \<lparr>db = \<lparr>habits_tbl = [\<lparr>row_id = 1, row_name = ascii ''Read'', row_streak = 1\<rparr>],
            master_tbl = [\<lparr>m_id = 1, habit_id = 1, m_completed = 1, completed_repeats = 0,
                          date = ''2025-04-14T08:00:00.000Z''\<rparr>],
            habits_seq = 1, master_seq = 1\<rparr>,
      habits = [\<lparr>hid = 1, name = ascii ''Read'', streak = 1, completed = True\<rparr>],
      newHabitName = [], isAddingHabit = False\<rparr>) \<and>
   completed_on \<lparr>habits_tbl = [\<lparr>row_id = 1, row_name = ascii ''Read'', row_streak = 1\<rparr>],
            master_tbl = [\<lparr>m_id = 1, habit_id = 1, m_completed = 1, completed_repeats = 0,
                          date = ''2025-04-14T08:00:00.000Z''\<rparr>],
            habits_seq = 1, master_seq = 1\<rparr> 1 ''2025-04-14'' \<and>
   step (step (TodayPage
     \<lparr>db = \<lparr>habits_tbl = [\<lparr>row_id = 1, row_name = ascii ''Read'', row_streak = 1\<rparr>],
            master_tbl = [\<lparr>m_id = 1, habit_id = 1, m_completed = 1, completed_repeats = 0,
                          date = ''2025-04-14T08:00:00.000Z''\<rparr>],
            habits_seq = 1, master_seq = 1\<rparr>,
      habits = [\<lparr>hid = 1, name = ascii ''Read'', streak = 1, completed = True\<rparr>],
      newHabitName = [], isAddingHabit = False\<rparr>)
      (Toggle 1 ''2025-04-14T09:00:00.000Z'')) (Toggle 1 ''2025-04-14T21:30:00.000Z'') =
   TodayPage
     \<lparr>db = \<lparr>habits_tbl = [\<lparr>row_id = 1, row_name = ascii ''Read'', row_streak = 1\<rparr>],
            master_tbl = [\<lparr>m_id = 1, habit_id = 1, m_completed = 1, completed_repeats = 0,
                          date = ''2025-04-14T21:30:00.000Z''\<rparr>],
            habits_seq = 1, master_seq = 1\<rparr>,
      habits = [\<lparr>hid = 1, name = ascii ''Read'', streak = 1, completed = True\<rparr>],
      newHabitName = [], isAddingHabit = False\<rparr>"
proof -
  let ?a = "TodayPage
     \<lparr>db = \<lparr>habits_tbl = [\<lparr>row_id = 1, row_name = ascii ''Read'', row_streak = 1\<rparr>],
            master_tbl = [\<lparr>m_id = 1, habit_id = 1, m_completed = 1, completed_repeats = 0,
                          date = ''2025-04-14T08:00:00.000Z''\<rparr>],
            habits_seq = 1, master_seq = 1\<rparr>,
      habits = [\<lparr>hid = 1, name = ascii ''Read'', streak = 1, completed = True\<rparr>],
      newHabitName = [], isAddingHabit = False\<rparr>"
  let ?t1 = "''2025-04-14T09:00:00.000Z''" and ?t2 = "''2025-04-14T21:30:00.000Z''"
  have ok: "app_ok ?a" by (simp add: app_ok_def wf_db_def in_sync_def streaks_nonneg_def)
  have i: "1 \<in> hid ` set (view ?a)" by simp
  have v: "valid_date (toggle_day ?a ?t1)"
    by (simp add: split_T_def digit_def digit_val_def days_in_month_def leap_year_def)
  have s: "toggle_day ?a ?t2 = toggle_day ?a ?t1" by (simp add: split_T_def)
  have f: "completed_on (the_db ?a) 1 (toggle_day ?a ?t1) \<longrightarrow>
           (\<forall>h \<in> set (view ?a). hid h = 1 \<longrightarrow> streak h \<noteq> 0)" by simp
  have c: "completed_on (the_db ?a) 1 ''2025-04-14''"
    by (simp add: completed_on_def select_master_day_def on_day_def lower_def)
  have e: "step (step ?a (Toggle 1 ?t1)) (Toggle 1 ?t2) = TodayPage
     \<lparr>db = \<lparr>habits_tbl = [\<lparr>row_id = 1, row_name = ascii ''Read'', row_streak = 1\<rparr>],
            master_tbl = [\<lparr>m_id = 1, habit_id = 1, m_completed = 1, completed_repeats = 0,
                          date = ''2025-04-14T21:30:00.000Z''\<rparr>],
            habits_seq = 1, master_seq = 1\<rparr>,
      habits = [\<lparr>hid = 1, name = ascii ''Read'', streak = 1, completed = True\<rparr>],
      newHabitName = [], isAddingHabit = False\<rparr>"
    by (simp add: eval_defs)
  show ?thesis
    using ok c e toggle_twice_restores[OF ok i v s f] by simp
qed

section \<open>What a toggle leaves alone\<close>

lemma filter_update_unchanged:
  "k < length xs \<Longrightarrow> \<not> P (xs ! k) \<Longrightarrow> \<not> P x' \<Longrightarrow> filter P (xs[k := x']) = filter P xs"
proof (induction xs arbitrary: k)
  case Nil
  then show ?case by simp
next
  case (Cons x xs)
  then show ?case by (cases k) simp_all
qed

lemma updated_row:
  "r \<in> set (map (\<lambda>r. if row_id r = i then r\<lparr>row_streak := n\<rparr> else r) H) \<Longrightarrow>
   \<exists>x \<in> set H. r = (if row_id x = i then x\<lparr>row_streak := n\<rparr> else x)"
  by (simp only: set_map image_iff)

lemma updated_rows:
  "\<forall>r \<in> set (map (\<lambda>r. if row_id r = i then r\<lparr>row_streak := n\<rparr> else r) H).
      row_id r = i \<longrightarrow> row_streak r = n"
proof (intro ballI impI)
  fix r
  assume a: "r \<in> set (map (\<lambda>r. if row_id r = i then r\<lparr>row_streak := n\<rparr> else r) H)"
    and ri: "row_id r = i"
  from updated_row[OF a] obtain x
    where x: "r = (if row_id x = i then x\<lparr>row_streak := n\<rparr> else x)" by blast
  show "row_streak r = n"
  proof (cases "row_id x = i")
    case True
    then have "r = x\<lparr>row_streak := n\<rparr>" using x by simp
    then show ?thesis by simp
  next
    case False
    then have "r = x" using x by simp
    then show ?thesis using ri False by simp
  qed
qed

text \<open>
  C8. A toggle of a habit for one day leaves the habit's records of any other day as they
  are, and with them the flag of that day; it leaves the records and rows of every other
  habit, and their entries on the page, as they are; and whichever day it addresses, it
  moves the one streak that the habit's row holds, up by one or down by one (not below
  0) as the addressed day's flag was off or on. So toggles for two different days meet
  in the same counter.
\<close>

theorem toggle_frame:
  assumes ok: "app_ok a" and i: "i \<in> hid ` set (view a)"
    and v1: "valid_date (toggle_day a now)"
    and v2: "valid_date day2" and ne: "day2 \<noteq> toggle_day a now"
  shows "filter (\<lambda>m. habit_id m = i \<and> on_day day2 m) (master_tbl (the_db (step a (Toggle i now))))
           = filter (\<lambda>m. habit_id m = i \<and> on_day day2 m) (master_tbl (the_db a)) \<and>
         completed_on (the_db (step a (Toggle i now))) i day2 = completed_on (the_db a) i day2 \<and>
         filter (\<lambda>m. habit_id m \<noteq> i) (master_tbl (the_db (step a (Toggle i now))))
           = filter (\<lambda>m. habit_id m \<noteq> i) (master_tbl (the_db a)) \<and>
         filter (\<lambda>r. row_id r \<noteq> i) (habits_tbl (the_db (step a (Toggle i now))))
           = filter (\<lambda>r. row_id r \<noteq> i) (habits_tbl (the_db a)) \<and>
         filter (\<lambda>h. hid h \<noteq> i) (view (step a (Toggle i now)))
           = filter (\<lambda>h. hid h \<noteq> i) (view a) \<and>
         (\<exists>n. (\<exists>r \<in> set (habits_tbl (the_db a)). row_id r = i) \<and>
              (\<forall>r \<in> set (habits_tbl (the_db a)). row_id r = i \<longrightarrow> row_streak r = n) \<and>
              (\<forall>r \<in> set (habits_tbl (the_db (step a (Toggle i now)))).
                  row_id r = i \<longrightarrow>
                  row_streak r =
                    newStreak (\<not> completed_on (the_db a) i (toggle_day a now)) n))"
proof -
  let ?D = "toggle_day a now" and ?ts = "toggle_stamp a now"
  let ?d = "the_db a" and ?hs = "view a"
  let ?a' = "step a (Toggle i now)"
  let ?TR = "toggle_record i ?D ?ts ?d"
  from i obtain k where k: "findIndex (\<lambda>h. hid h = i) ?hs = Some k"
    using findIndex_exists[of _ "view a" "\<lambda>h. hid h = i"] by auto
  from findIndex_Some[OF k] have kl: "k < length ?hs" and ki: "hid (?hs ! k) = i" by auto
  let ?n = "newStreak (fst ?TR) (streak (?hs ! k))"
  from ok have w: "wf_db ?d" and y: "in_sync ?d ?hs" by (simp_all add: app_ok_def)
  note st = toggle_step[OF k v1]
  have m: "master_tbl (the_db ?a') = master_tbl (snd ?TR)"
    by (simp add: st(1) update_streak_cols)
  have h: "habits_tbl (the_db ?a') =
           map (\<lambda>r. if row_id r = i then r\<lparr>row_streak := ?n\<rparr> else r) (habits_tbl ?d)"
    by (simp add: st(1) update_streak_def toggle_record_habits)
  have 1: "filter (\<lambda>m. habit_id m = i \<and> on_day day2 m) (master_tbl (the_db ?a'))
           = filter (\<lambda>m. habit_id m = i \<and> on_day day2 m) (master_tbl ?d)"
    unfolding m
  proof (rule toggle_record_frame[OF w])
    fix m assume p: "habit_id m = i \<and> on_day day2 m"
    then have a: "\<not> on_day ?D m" using other_day_on[OF v2 v1 ne] by blast
    have "date m = ?ts \<Longrightarrow> on_day ?D m" using stamp_like[OF v1] by (simp add: on_day_def)
    then show "\<not> (habit_id m = i \<and> (on_day ?D m \<or> date m = ?ts))" using a by blast
  qed
  have 2: "completed_on (the_db ?a') i day2 = completed_on ?d i day2"
    using completed_on_filter[OF 1] .
  have 3: "filter (\<lambda>m. habit_id m \<noteq> i) (master_tbl (the_db ?a'))
           = filter (\<lambda>m. habit_id m \<noteq> i) (master_tbl ?d)"
    unfolding m by (rule toggle_record_frame[OF w]) simp
  have 4: "filter (\<lambda>r. row_id r \<noteq> i) (habits_tbl (the_db ?a'))
           = filter (\<lambda>r. row_id r \<noteq> i) (habits_tbl ?d)"
    unfolding h by (rule filter_map_unchanged) auto
  have 5: "filter (\<lambda>h. hid h \<noteq> i) (view ?a') = filter (\<lambda>h. hid h \<noteq> i) ?hs"
    unfolding st(2) using kl ki by (simp add: filter_update_unchanged)
  have "i \<in> row_id ` set (habits_tbl ?d)" using i in_sync_ids[OF y] by simp
  then have 6: "\<exists>r \<in> set (habits_tbl ?d). row_id r = i" by auto
  have 7: "\<forall>r \<in> set (habits_tbl ?d). row_id r = i \<longrightarrow> row_streak r = streak (?hs ! k)"
    by (rule row_of_view[OF w y k])
  have c: "fst ?TR = (\<not> completed_on ?d i ?D)" by (rule toggle_record_fst)
  have "\<forall>r \<in> set (habits_tbl (the_db ?a')). row_id r = i \<longrightarrow> row_streak r = ?n"
    unfolding h by (rule updated_rows)
  then have 8: "\<forall>r \<in> set (habits_tbl (the_db ?a')). row_id r = i \<longrightarrow>
             row_streak r = newStreak (\<not> completed_on ?d i ?D) (streak (?hs ! k))"
    by (simp only: c)
  show ?thesis
    apply (intro conjI)
         apply (rule 1)
        apply (rule 2)
       apply (rule 3)
      apply (rule 4)
     apply (rule 5)
    apply (rule exI[of _ "streak (?hs ! k)"])
    apply (intro conjI)
      apply (rule 6)
     apply (rule 7)
    apply (rule 8)
    done
qed


theorem toggle_frame_witness:
  "app_ok (HistoryPage
     \<lparr>db = \<lparr>habits_tbl = [\<lparr>row_id = 1, row_name = ascii ''Read'', row_streak = 1\<rparr>,
                          \<lparr>row_id = 2, row_name = ascii ''Run'', row_streak = 1\<rparr>],
            master_tbl = [\<lparr>m_id = 1, habit_id = 1, m_completed = 1, completed_repeats = 0,
                           date = ''2025-04-13T00:00:00.000Z''\<rparr>,
                          \<lparr>m_id = 2, habit_id = 2, m_completed = 1, completed_repeats = 0,
                           date = ''2025-04-14T07:15:00.000Z''\<rparr>],
            habits_seq = 2, master_seq = 2\<rparr>,
      selectedDate = ''2025-04-14'',
      habitsForDate = [\<lparr>hid = 1, name = ascii ''Read'', streak = 1, completed = False\<rparr>,
                       \<lparr>hid = 2, name = ascii ''Run'', streak = 1, completed = True\<rparr>]\<rparr>) \<and>
   valid_date ''2025-04-14'' \<and> valid_date ''2025-04-13'' \<and>
   the_db (step (HistoryPage
     \<lparr>db = \<lparr>habits_tbl = [\<lparr>row_id = 1, row_name = ascii ''Read'', row_streak = 1\<rparr>,
                          \<lparr>row_id = 2, row_name = ascii ''Run'', row_streak = 1\<rparr>],
            master_tbl = [\<lparr>m_id = 1, habit_id = 1, m_completed = 1, completed_repeats = 0,
                           date = ''2025-04-13T00:00:00.000Z''\<rparr>,
                          \<lparr>m_id = 2, habit_id = 2, m_completed = 1, completed_repeats = 0,
                           date = ''2025-04-14T07:15:00.000Z''\<rparr>],
            habits_seq = 2, master_seq = 2\<rparr>,
      selectedDate = ''2025-04-14'',
      habitsForDate = [\<lparr>hid = 1, name = ascii ''Read'', streak = 1, completed = False\<rparr>,
                       \<lparr>hid = 2, name = ascii ''Run'', streak = 1, completed = True\<rparr>]\<rparr>)
     (Toggle 1 ''2025-04-15T10:00:00.000Z'')) =
     \<lparr>habits_tbl = [\<lparr>row_id = 1, row_name = ascii ''Read'', row_streak = 2\<rparr>,
                     \<lparr>row_id = 2, row_name = ascii ''Run'', row_streak = 1\<rparr>],
      master_tbl = [\<lparr>m_id = 1, habit_id = 1, m_completed = 1, completed_repeats = 0,
                      date = ''2025-04-13T00:00:00.000Z''\<rparr>,
                    \<lparr>m_id = 2, habit_id = 2, m_completed = 1, completed_repeats = 0,
                      date = ''2025-04-14T07:15:00.000Z''\<rparr>,
                    \<lparr>m_id = 3, habit_id = 1, m_completed = 1, completed_repeats = 0,
                      date = ''2025-04-14T00:00:00.000Z''\<rparr>],
      habits_seq = 2, master_seq = 3\<rparr> \<and>
   completed_on
     \<lparr>habits_tbl = [\<lparr>row_id = 1, row_name = ascii ''Read'', row_streak = 2\<rparr>,
                     \<lparr>row_id = 2, row_name = ascii ''Run'', row_streak = 1\<rparr>],
      master_tbl = [\<lparr>m_id = 1, habit_id = 1, m_completed = 1, completed_repeats = 0,
                      date = ''2025-04-13T00:00:00.000Z''\<rparr>,
                    \<lparr>m_id = 2, habit_id = 2, m_completed = 1, completed_repeats = 0,
                      date = ''2025-04-14T07:15:00.000Z''\<rparr>,
                    \<lparr>m_id = 3, habit_id = 1, m_completed = 1, completed_repeats = 0,
                      date = ''2025-04-14T00:00:00.000Z''\<rparr>],
      habits_seq = 2, master_seq = 3\<rparr> 1 ''2025-04-13''"
proof -
  let ?a = "HistoryPage
     \<lparr>db = \<lparr>habits_tbl = [\<lparr>row_id = 1, row_name = ascii ''Read'', row_streak = 1\<rparr>,
                          \<lparr>row_id = 2, row_name = ascii ''Run'', row_streak = 1\<rparr>],
            master_tbl = [\<lparr>m_id = 1, habit_id = 1, m_completed = 1, completed_repeats = 0,
                           date = ''2025-04-13T00:00:00.000Z''\<rparr>,
                          \<lparr>m_id = 2, habit_id = 2, m_completed = 1, completed_repeats = 0,
                           date = ''2025-04-14T07:15:00.000Z''\<rparr>],
            habits_seq = 2, master_seq = 2\<rparr>,
      selectedDate = ''2025-04-14'',
      habitsForDate = [\<lparr>hid = 1, name = ascii ''Read'', streak = 1, completed = False\<rparr>,
                       \<lparr>hid = 2, name = ascii ''Run'', streak = 1, completed = True\<rparr>]\<rparr>"
  let ?t = "''2025-04-15T10:00:00.000Z''"
  have ok: "app_ok ?a" by (simp add: app_ok_def wf_db_def in_sync_def streaks_nonneg_def)
  have i: "1 \<in> hid ` set (view ?a)" by simp
  have v1: "valid_date (toggle_day ?a ?t)"
    by (simp add: digit_def digit_val_def days_in_month_def leap_year_def)
  have v2: "valid_date ''2025-04-13''"
    by (simp add: digit_def digit_val_def days_in_month_def leap_year_def)
  have ne: "''2025-04-13'' \<noteq> toggle_day ?a ?t" by simp
  have e: "the_db (step ?a (Toggle 1 ?t)) =
     \<lparr>habits_tbl = [\<lparr>row_id = 1, row_name = ascii ''Read'', row_streak = 2\<rparr>,
                     \<lparr>row_id = 2, row_name = ascii ''Run'', row_streak = 1\<rparr>],
      master_tbl = [\<lparr>m_id = 1, habit_id = 1, m_completed = 1, completed_repeats = 0,
                      date = ''2025-04-13T00:00:00.000Z''\<rparr>,
                    \<lparr>m_id = 2, habit_id = 2, m_completed = 1, completed_repeats = 0,
                      date = ''2025-04-14T07:15:00.000Z''\<rparr>,
                    \<lparr>m_id = 3, habit_id = 1, m_completed = 1, completed_repeats = 0,
                      date = ''2025-04-14T00:00:00.000Z''\<rparr>],
      habits_seq = 2, master_seq = 3\<rparr>"
    by (simp add: eval_defs)
  have c: "completed_on (the_db ?a) 1 ''2025-04-13''"
    by (simp add: completed_on_def select_master_day_def on_day_def lower_def)
  have v14: "valid_date ''2025-04-14''" using v1 by simp
  have "completed_on (the_db (step ?a (Toggle 1 ?t))) 1 ''2025-04-13'' =
        completed_on (the_db ?a) 1 ''2025-04-13''"
    using toggle_frame[OF ok i v1 v2 ne] by (rule conjunct1[OF conjunct2])
  then have g: "completed_on (the_db (step ?a (Toggle 1 ?t))) 1 ''2025-04-13''"
    using c by (simp only:)
  show ?thesis
    apply (intro conjI)
        apply (rule ok)
       apply (rule v14)
      apply (rule v2)
     apply (rule e)
    apply (rule g[unfolded e])
    done
qed

section \<open>A toggle that fails half way\<close>

text \<open>
  C9 as stated fails: when the streak write is the statement that fails, the record write
  before it stays in the store by itself. Here the record says completed and the streak
  is still 0, where the whole toggle would have made it 1.
\<close>

theorem toggle_split_write_counterexample:
  "toggleHabit_rejected Write_streak 1 ''2025-04-14T09:00:00.000Z''
     \<lparr>db = \<lparr>habits_tbl = [\<lparr>row_id = 1, row_name = ascii ''Read'', row_streak = 0\<rparr>],
            master_tbl = [], habits_seq = 1, master_seq = 0\<rparr>,
      habits = [\<lparr>hid = 1, name = ascii ''Read'', streak = 0, completed = False\<rparr>],
      newHabitName = [], isAddingHabit = False\<rparr> =
     \<lparr>db = \<lparr>habits_tbl = [\<lparr>row_id = 1, row_name = ascii ''Read'', row_streak = 0\<rparr>],
            master_tbl = [\<lparr>m_id = 1, habit_id = 1, m_completed = 1, completed_repeats = 0,
                           date = ''2025-04-14T09:00:00.000Z''\<rparr>],
            habits_seq = 1, master_seq = 1\<rparr>,
      habits = [\<lparr>hid = 1, name = ascii ''Read'', streak = 0, completed = False\<rparr>],
      newHabitName = [], isAddingHabit = False\<rparr> \<and>
   toggleHabit 1 ''2025-04-14T09:00:00.000Z''
     \<lparr>db = \<lparr>habits_tbl = [\<lparr>row_id = 1, row_name = ascii ''Read'', row_streak = 0\<rparr>],
            master_tbl = [], habits_seq = 1, master_seq = 0\<rparr>,
      habits = [\<lparr>hid = 1, name = ascii ''Read'', streak = 0, completed = False\<rparr>],
      newHabitName = [], isAddingHabit = False\<rparr> =
   Inr \<lparr>db = \<lparr>habits_tbl = [\<lparr>row_id = 1, row_name = ascii ''Read'', row_streak = 1\<rparr>],
            master_tbl = [\<lparr>m_id = 1, habit_id = 1, m_completed = 1, completed_repeats = 0,
                           date = ''2025-04-14T09:00:00.000Z''\<rparr>],
            habits_seq = 1, master_seq = 1\<rparr>,
      habits = [\<lparr>hid = 1, name = ascii ''Read'', streak = 1, completed = True\<rparr>],
      newHabitName = [], isAddingHabit = False\<rparr>"
  by (simp add: toggleHabit_rejected_def eval_defs)

text \<open>
  C9, amended. The record write and the streak write of a toggle are two statements, one
  after the other, without a transaction. When the lookup or the record write fails,
  nothing has been written. When the streak write fails, the record write is in the
  store as the whole toggle would leave it, while the habits table and the list on the
  page are as they were before the toggle.
\<close>

theorem toggle_writes_are_separate:
  "toggleHabit_rejected Lookup i now s = s \<and>
   toggleHabit_rejected Write_record i now s = s \<and>
   (\<forall>s'. toggleHabit i now s = Inr s' \<longrightarrow>
      master_tbl (db (toggleHabit_rejected Write_streak i now s)) = master_tbl (db s') \<and>
      habits_tbl (db (toggleHabit_rejected Write_streak i now s)) = habits_tbl (db s) \<and>
      habits (toggleHabit_rejected Write_streak i now s) = habits s) \<and>
   toggleHabit_history_rejected Lookup i h = h \<and>
   toggleHabit_history_rejected Write_record i h = h \<and>
   (\<forall>h'. toggleHabit_history i h = Inr h' \<longrightarrow>
      master_tbl (db (toggleHabit_history_rejected Write_streak i h)) = master_tbl (db h') \<and>
      habits_tbl (db (toggleHabit_history_rejected Write_streak i h)) = habits_tbl (db h) \<and>
      habitsForDate (toggleHabit_history_rejected Write_streak i h) = habitsForDate h)"
proof (intro conjI allI impI)
  show "toggleHabit_rejected Lookup i now s = s"
    by (simp add: toggleHabit_rejected_def split: option.splits)
  show "toggleHabit_rejected Write_record i now s = s"
    by (simp add: toggleHabit_rejected_def split: option.splits)
  show "toggleHabit_history_rejected Lookup i h = h"
    by (simp add: toggleHabit_history_rejected_def split: option.splits sum.splits)
  show "toggleHabit_history_rejected Write_record i h = h"
    by (simp add: toggleHabit_history_rejected_def split: option.splits sum.splits)
next
  fix s' assume a: "toggleHabit i now s = Inr s'"
  show "master_tbl (db (toggleHabit_rejected Write_streak i now s)) = master_tbl (db s')"
    using a
    by (cases "findIndex (\<lambda>h. hid h = i) (habits s)")
       (auto simp: toggleHabit_rejected_def toggleHabit_def Let_def split_beta
          update_streak_cols)
  show "habits_tbl (db (toggleHabit_rejected Write_streak i now s)) = habits_tbl (db s)"
    by (cases "findIndex (\<lambda>h. hid h = i) (habits s)")
       (simp_all add: toggleHabit_rejected_def Let_def split_beta toggle_record_habits)
  show "habits (toggleHabit_rejected Write_streak i now s) = habits s"
    by (cases "findIndex (\<lambda>h. hid h = i) (habits s)")
       (simp_all add: toggleHabit_rejected_def Let_def split_beta)
next
  fix h' assume a: "toggleHabit_history i h = Inr h'"
  show "master_tbl (db (toggleHabit_history_rejected Write_streak i h)) = master_tbl (db h')"
    using a
    by (cases "findIndex (\<lambda>x. hid x = i) (habitsForDate h)";
        cases "date_toISOString (selectedDate h)")
       (auto simp: toggleHabit_history_rejected_def toggleHabit_history_def Let_def split_beta
          update_streak_cols)
  show "habits_tbl (db (toggleHabit_history_rejected Write_streak i h)) = habits_tbl (db h)"
    by (cases "findIndex (\<lambda>x. hid x = i) (habitsForDate h)";
        cases "date_toISOString (selectedDate h)")
       (simp_all add: toggleHabit_history_rejected_def Let_def split_beta toggle_record_habits)
  show "habitsForDate (toggleHabit_history_rejected Write_streak i h) = habitsForDate h"
    by (cases "findIndex (\<lambda>x. hid x = i) (habitsForDate h)";
        cases "date_toISOString (selectedDate h)")
       (simp_all add: toggleHabit_history_rejected_def Let_def split_beta)
qed


theorem toggle_writes_are_separate_witness:
  "toggleHabit 1 ''2025-04-14T09:00:00.000Z''
     \<lparr>db = \<lparr>habits_tbl = [\<lparr>row_id = 1, row_name = ascii ''Read'', row_streak = 2\<rparr>],
            master_tbl = [\<lparr>m_id = 1, habit_id = 1, m_completed = 1, completed_repeats = 0,
                           date = ''2025-04-14T07:00:00.000Z''\<rparr>],
            habits_seq = 1, master_seq = 1\<rparr>,
      habits = [\<lparr>hid = 1, name = ascii ''Read'', streak = 2, completed = True\<rparr>],
      newHabitName = [], isAddingHabit = False\<rparr> =
   Inr \<lparr>db = \<lparr>habits_tbl = [\<lparr>row_id = 1, row_name = ascii ''Read'', row_streak = 1\<rparr>],
            master_tbl = [\<lparr>m_id = 1, habit_id = 1, m_completed = 0, completed_repeats = 0,
                           date = ''2025-04-14T09:00:00.000Z''\<rparr>],
            habits_seq = 1, master_seq = 1\<rparr>,
      habits = [\<lparr>hid = 1, name = ascii ''Read'', streak = 1, completed = False\<rparr>],
      newHabitName = [], isAddingHabit = False\<rparr> \<and>
   db (toggleHabit_rejected Write_streak 1 ''2025-04-14T09:00:00.000Z''
     \<lparr>db = \<lparr>habits_tbl = [\<lparr>row_id = 1, row_name = ascii ''Read'', row_streak = 2\<rparr>],
            master_tbl = [\<lparr>m_id = 1, habit_id = 1, m_completed = 1, completed_repeats = 0,
                           date = ''2025-04-14T07:00:00.000Z''\<rparr>],
            habits_seq = 1, master_seq = 1\<rparr>,
      habits = [\<lparr>hid = 1, name = ascii ''Read'', streak = 2, completed = True\<rparr>],
      newHabitName = [], isAddingHabit = False\<rparr>) =
     \<lparr>habits_tbl = [\<lparr>row_id = 1, row_name = ascii ''Read'', row_streak = 2\<rparr>],
      master_tbl = [\<lparr>m_id = 1, habit_id = 1, m_completed = 0, completed_repeats = 0,
                      date = ''2025-04-14T09:00:00.000Z''\<rparr>],
      habits_seq = 1, master_seq = 1\<rparr> \<and>
   toggleHabit_history 1
     \<lparr>db = \<lparr>habits_tbl = [\<lparr>row_id = 1, row_name = ascii ''Read'', row_streak = 0\<rparr>],
            master_tbl = [], habits_seq = 1, master_seq = 0\<rparr>,
      selectedDate = ''2025-04-10'',
      habitsForDate = [\<lparr>hid = 1, name = ascii ''Read'', streak = 0, completed = False\<rparr>]\<rparr> =
   Inr \<lparr>db = \<lparr>habits_tbl = [\<lparr>row_id = 1, row_name = ascii ''Read'', row_streak = 1\<rparr>],
               master_tbl = [\<lparr>m_id = 1, habit_id = 1, m_completed = 1, completed_repeats = 0,
                              date = ''2025-04-10T00:00:00.000Z''\<rparr>],
               habits_seq = 1, master_seq = 1\<rparr>,
         selectedDate = ''2025-04-10'',
         habitsForDate = [\<lparr>hid = 1, name = ascii ''Read'', streak = 1, completed = True\<rparr>]\<rparr> \<and>
   db (toggleHabit_history_rejected Write_streak 1
     \<lparr>db = \<lparr>habits_tbl = [\<lparr>row_id = 1, row_name = ascii ''Read'', row_streak = 0\<rparr>],
            master_tbl = [], habits_seq = 1, master_seq = 0\<rparr>,
      selectedDate = ''2025-04-10'',
      habitsForDate = [\<lparr>hid = 1, name = ascii ''Read'', streak = 0, completed = False\<rparr>]\<rparr>) =
     \<lparr>habits_tbl = [\<lparr>row_id = 1, row_name = ascii ''Read'', row_streak = 0\<rparr>],
      master_tbl = [\<lparr>m_id = 1, habit_id = 1, m_completed = 1, completed_repeats = 0,
                      date = ''2025-04-10T00:00:00.000Z''\<rparr>],
      habits_seq = 1, master_seq = 1\<rparr>"
  using toggle_writes_are_separate[of 1 "''2025-04-14T09:00:00.000Z''"
     "\<lparr>db = \<lparr>habits_tbl = [\<lparr>row_id = 1, row_name = ascii ''Read'', row_streak = 2\<rparr>],
            master_tbl = [\<lparr>m_id = 1, habit_id = 1, m_completed = 1, completed_repeats = 0,
                           date = ''2025-04-14T07:00:00.000Z''\<rparr>],
            habits_seq = 1, master_seq = 1\<rparr>,
      habits = [\<lparr>hid = 1, name = ascii ''Read'', streak = 2, completed = True\<rparr>],
      newHabitName = [], isAddingHabit = False\<rparr>"
     "\<lparr>db = \<lparr>habits_tbl = [\<lparr>row_id = 1, row_name = ascii ''Read'', row_streak = 0\<rparr>],
            master_tbl = [], habits_seq = 1, master_seq = 0\<rparr>,
      selectedDate = ''2025-04-10'',
      habitsForDate = [\<lparr>hid = 1, name = ascii ''Read'', streak = 0, completed = False\<rparr>]\<rparr>"]
  by (simp add: toggleHabit_rejected_def toggleHabit_history_rejected_def eval_defs)

end
